theory Spec2Isabelle
  imports Main
begin

section \<open>JavaScript values used by server.js\<close>

text \<open>
  A JavaScript number is a double. The numbers of server.js are file sizes, the results
  of \<open>parseInt\<close> on digit strings and differences of the two, so every finite one is an
  integer: \<open>Num i\<close> is the double whose value is the integer \<open>i\<close>. Integers up to
  \<open>2^53\<close> in magnitude are doubles; a larger one is rounded to the nearest double, ties
  to the even mantissa, and to an infinity from \<open>2^1024 - 2^970\<close> on. Every comparison
  with \<open>NaN\<close> is false and arithmetic on \<open>NaN\<close> gives \<open>NaN\<close>.
\<close>

datatype jsnum = NaN | Num int | PInf | NInf

fun isNaN :: "jsnum \<Rightarrow> bool" where
  "isNaN NaN = True"
| "isNaN (Num n) = False"
| "isNaN PInf = False"
| "isNaN NInf = False"

fun js_gt :: "jsnum \<Rightarrow> jsnum \<Rightarrow> bool" where
  "js_gt (Num a) (Num b) = (a > b)"
| "js_gt NaN y = False"
| "js_gt x NaN = False"
| "js_gt PInf PInf = False"
| "js_gt PInf y = True"
| "js_gt NInf y = False"
| "js_gt (Num a) PInf = False"
| "js_gt (Num a) NInf = True"

text \<open>The number of binary digits of a natural number.\<close>

fun bit_length :: "nat \<Rightarrow> nat" where
  "bit_length n = (if n = 0 then 0 else Suc (bit_length (n div 2)))"

declare bit_length.simps [simp del]

text \<open>
  The nearest number with a mantissa of 53 bits: the bits below the mantissa are cut
  off and the mantissa goes up by one where they are more than half a unit, or exactly
  half and the mantissa is odd.
\<close>

definition round_even :: "nat \<Rightarrow> nat" where
  "round_even n =
     (let e = bit_length n - 53;
          q = n div 2 ^ e;
          r = n mod 2 ^ e
      in if e = 0 then n
         else if 2 * r > 2 ^ e \<or> (2 * r = 2 ^ e \<and> odd q) then (q + 1) * 2 ^ e
         else q * 2 ^ e)"

text \<open>The double for an integer.\<close>

definition js_number :: "int \<Rightarrow> jsnum" where
  "js_number i =
     (let m = round_even (nat \<bar>i\<bar>)
      in if m \<ge> 2 ^ 1024 then (if i < 0 then NInf else PInf)
         else Num (if i < 0 then - int m else int m))"

fun js_sub :: "jsnum \<Rightarrow> jsnum \<Rightarrow> jsnum" where
  "js_sub (Num a) (Num b) = js_number (a - b)"
| "js_sub NaN y = NaN"
| "js_sub x NaN = NaN"
| "js_sub PInf PInf = NaN"
| "js_sub NInf NInf = NaN"
| "js_sub PInf y = PInf"
| "js_sub NInf y = NInf"
| "js_sub (Num a) PInf = NInf"
| "js_sub (Num a) NInf = PInf"

text \<open>The exceptions server.js can raise; none of them is caught, so each ends the
  callback it is thrown in and no response is written.\<close>

datatype js_error =
  TypeError string | ReferenceError string | RangeError string | SystemError string

text \<open>A header value read from a header object: \<open>None\<close> is \<open>undefined\<close>.
  \<open>undefined\<close> and the empty string are the falsy ones.\<close>

fun truthy :: "string option \<Rightarrow> bool" where
  "truthy None = False"
| "truthy (Some s) = (s \<noteq> [])"

subsection \<open>Number formatting and parsing\<close>

definition digit_char :: "nat \<Rightarrow> char" where
  "digit_char n = ''0123456789abcdef'' ! n"

fun dec_digits :: "nat \<Rightarrow> string" where
  "dec_digits n = (if n < 10 then [digit_char n] else dec_digits (n div 10) @ [digit_char (n mod 10)])"

fun hex_digits :: "nat \<Rightarrow> string" where
  "hex_digits n = (if n < 16 then [digit_char n] else hex_digits (n div 16) @ [digit_char (n mod 16)])"

declare dec_digits.simps [simp del]
declare hex_digits.simps [simp del]

text \<open>\<open>Number.prototype.toString(radix)\<close> on an integer, for radix 10 and 16.\<close>

definition int_toString10 :: "int \<Rightarrow> string" where
  "int_toString10 i = (if i < 0 then CHR ''-'' # dec_digits (nat (- i)) else dec_digits (nat i))"

definition int_toString16 :: "int \<Rightarrow> string" where
  "int_toString16 i = (if i < 0 then CHR ''-'' # hex_digits (nat (- i)) else hex_digits (nat i))"

text \<open>
  What a template literal prints for a number. Up to \<open>2^53\<close> in magnitude it is the
  decimal digits of the integer. Beyond, \<open>Number.prototype.toString\<close> prints the
  shortest digits that read back as the same double (in exponent form from \<open>10^21\<close>
  on); that text is the parameter \<open>big\<close>.
\<close>

fun js_toString :: "(int \<Rightarrow> string) \<Rightarrow> jsnum \<Rightarrow> string" where
  "js_toString big NaN = ''NaN''"
| "js_toString big PInf = ''Infinity''"
| "js_toString big NInf = ''-Infinity''"
| "js_toString big (Num i) = (if \<bar>i\<bar> \<le> 2 ^ 53 then int_toString10 i else big i)"

definition is_digit :: "char \<Rightarrow> bool" where
  "is_digit c = (c \<in> set ''0123456789'')"

definition digit_val :: "char \<Rightarrow> int" where
  "digit_val c = int (of_char c) - 48"

definition dec_value :: "string \<Rightarrow> int" where
  "dec_value ds = foldl (\<lambda>a c. 10 * a + digit_val c) 0 ds"

text \<open>
  \<open>parseInt\<close> on a capture of \<open>([0-9]*)\<close>: the empty capture gives \<open>NaN\<close>, a run of
  digits the double nearest to the number it writes.
\<close>

definition parseInt :: "string \<Rightarrow> jsnum" where
  "parseInt ds =
     (if takeWhile is_digit ds = [] then NaN else js_number (dec_value (takeWhile is_digit ds)))"

subsection \<open>The regular expressions\<close>

text \<open>
  \<open>/bytes=([0-9]*)-([0-9]*)/\<close> is not anchored: it matches at the leftmost position
  where \<open>bytes=\<close>, a maximal run of digits, a dash and a second maximal run of digits
  follow each other. (A shorter first run is followed by a digit, never by the dash, so
  backtracking finds nothing more.) The result is the two captures; \<open>None\<close> is the
  \<open>null\<close> that \<open>String.prototype.match\<close> returns.
\<close>

definition match_range_at :: "string \<Rightarrow> (string \<times> string) option" where
  "match_range_at s =
     (if take 6 s = ''bytes='' then
        (case dropWhile is_digit (drop 6 s) of
           [] \<Rightarrow> None
         | c # r2 \<Rightarrow>
             if c = CHR ''-'' then Some (takeWhile is_digit (drop 6 s), takeWhile is_digit r2)
             else None)
      else None)"

fun match_range :: "string \<Rightarrow> (string \<times> string) option" where
  "match_range [] = None"
| "match_range (c # cs) =
     (case match_range_at (c # cs) of
        Some g \<Rightarrow> Some g
      | None \<Rightarrow> match_range cs)"

text \<open>
  \<open>\b\<close> holds between two neighbours exactly one of which is a word character
  (\<open>[A-Za-z0-9_]\<close>); the start and the end of the string count as non-word.
\<close>

definition is_word_char :: "char \<Rightarrow> bool" where
  "is_word_char c =
     (c \<in> set ''abcdefghijklmnopqrstuvwxyzABCDEFGHIJKLMNOPQRSTUVWXYZ0123456789_'')"

fun is_word :: "char option \<Rightarrow> bool" where
  "is_word None = False"
| "is_word (Some c) = is_word_char c"

definition boundary :: "char option \<Rightarrow> char option \<Rightarrow> bool" where
  "boundary a b = (is_word a \<noteq> is_word b)"

fun first_char :: "string \<Rightarrow> char option" where
  "first_char [] = None"
| "first_char (c # cs) = Some c"

text \<open>\<open>\bw\b\<close> tried at one position: \<open>prev\<close> is the character before it.\<close>

definition word_at :: "string \<Rightarrow> char option \<Rightarrow> string \<Rightarrow> bool" where
  "word_at w prev s =
     (take (length w) s = w \<and> w \<noteq> []
      \<and> boundary prev (first_char w)
      \<and> boundary (Some (last w)) (first_char (drop (length w) s)))"

text \<open>\<open>/\b(w1|w2|...)\b/\<close> searched from left to right.\<close>

fun search_from :: "string list \<Rightarrow> char option \<Rightarrow> string \<Rightarrow> bool" where
  "search_from ws prev [] = False"
| "search_from ws prev (c # cs) =
     (list_ex (\<lambda>w. word_at w prev (c # cs)) ws \<or> search_from ws (Some c) cs)"

definition re_gzip_or_deflate :: "string \<Rightarrow> bool" where
  "re_gzip_or_deflate s = search_from [''gzip'', ''deflate''] None s"

definition re_gzip :: "string \<Rightarrow> bool" where
  "re_gzip s = search_from [''gzip''] None s"

definition re_deflate :: "string \<Rightarrow> bool" where
  "re_deflate s = search_from [''deflate''] None s"

subsection \<open>Node's path module (POSIX)\<close>

text \<open>
  \<open>path.normalize\<close> and \<open>path.join\<close> as Node implements them for POSIX paths: the path
  is cut at every slash, empty and \<open>.\<close> segments are dropped, a \<open>..\<close> removes the
  segment before it, and a \<open>..\<close> with nothing to remove is kept only in a relative path.
\<close>

fun split_slash :: "string \<Rightarrow> string list" where
  "split_slash [] = [[]]"
| "split_slash (c # cs) =
     (if c = CHR ''/'' then [] # split_slash cs
      else (case split_slash cs of
              [] \<Rightarrow> [[c]]
            | s # ss \<Rightarrow> (c # s) # ss))"

fun join_slash :: "string list \<Rightarrow> string" where
  "join_slash [] = []"
| "join_slash [s] = s"
| "join_slash (s # t # ss) = s @ CHR ''/'' # join_slash (t # ss)"

fun normalizeString :: "bool \<Rightarrow> string list \<Rightarrow> string list \<Rightarrow> string list" where
  "normalizeString allowAboveRoot res [] = res"
| "normalizeString allowAboveRoot res (seg # segs) =
     (if seg = [] \<or> seg = ''.'' then normalizeString allowAboveRoot res segs
      else if seg = ''..'' then
        (if res \<noteq> [] \<and> last res \<noteq> ''..'' then normalizeString allowAboveRoot (butlast res) segs
         else if allowAboveRoot then normalizeString allowAboveRoot (res @ [''..'']) segs
         else normalizeString allowAboveRoot res segs)
      else normalizeString allowAboveRoot (res @ [seg]) segs)"

definition path_normalize :: "string \<Rightarrow> string" where
  "path_normalize p =
     (if p = [] then ''.''
      else
        let isAbsolute = (hd p = CHR ''/'');
            trailingSeparator = (last p = CHR ''/'');
            body = join_slash (normalizeString (\<not> isAbsolute) [] (split_slash p))
        in if body = [] then (if isAbsolute then ''/'' else if trailingSeparator then ''./'' else ''.'')
           else (if isAbsolute then ''/'' else []) @ body @ (if trailingSeparator then ''/'' else []))"

definition path_join :: "string \<Rightarrow> string \<Rightarrow> string" where
  "path_join a b =
     (let joined = (if a = [] then b else if b = [] then a else a @ CHR ''/'' # b)
      in if joined = [] then ''.'' else path_normalize joined)"

section \<open>The world outside the program\<close>

text \<open>What \<open>fs.stat\<close> reports of a path that exists; the size is the number it
  reports, a double.\<close>

record stats =
  st_size :: nat
  st_mtime :: int
  st_isDirectory :: bool

text \<open>
  The file system, the clock and the library functions whose results server.js only
  passes on. \<open>fs_stat\<close> gives \<open>None\<close> where \<open>fs.stat\<close> reports an error (and
  \<open>fs.statSync\<close> throws), \<open>fs_readdir\<close> gives \<open>Inl\<close> the error text where
  \<open>fs.readdir\<close> fails, \<open>fs_bytes\<close> is the content of a file. \<open>url_pathname\<close> is
  \<open>url.parse(u).pathname\<close>, which is \<open>null\<close> (\<open>None\<close>) for a target without a path;
  \<open>mime_lookup\<close> is \<open>./lib/mime\<close>, \<open>path_extname\<close> is \<open>path.extname\<close>, \<open>toUTCString\<close>
  formats a time given in milliseconds, \<open>date_now\<close> is \<open>Date.now()\<close> and
  \<open>number_toString\<close> is what \<open>Number.prototype.toString\<close> prints for an integer
  double beyond \<open>2^53\<close>. The two calls of \<open>fs.stat\<close> for one request see the same
  file system.
\<close>

record env =
  fs_stat :: "string \<Rightarrow> stats option"
  fs_existsSync :: "string \<Rightarrow> bool"
  fs_readdir :: "string \<Rightarrow> string + string list"
  fs_bytes :: "string \<Rightarrow> string"
  url_pathname :: "string \<Rightarrow> string option"
  mime_lookup :: "string \<Rightarrow> string"
  path_extname :: "string \<Rightarrow> string"
  toUTCString :: "int \<Rightarrow> string"
  date_now :: int
  number_toString :: "int \<Rightarrow> string"

record request =
  req_url :: string
  req_headers :: "string \<rightharpoonup> string"

text \<open>
  A byte stream: a read stream of a file, opened without options (\<open>None\<close>: the whole
  file) or with \<open>start\<close> and \<open>end\<close>, where the end \<open>None\<close> is \<open>Infinity\<close>; possibly
  piped through a zlib transform.
\<close>

datatype stream =
  ReadStream string "(nat \<times> nat option) option"
| Gzip stream
| Deflate stream

text \<open>
  \<open>fs.createReadStream(path, {start, end})\<close> as Node documents it (from version 10
  on): \<open>start\<close> must be an integer from 0 to \<open>2^53 - 1\<close>, \<open>end\<close> such an integer or
  \<open>Infinity\<close>, and \<open>start\<close> at most \<open>end\<close>; anything else throws a RangeError
  (\<open>ERR_OUT_OF_RANGE\<close>) at the call.
\<close>

definition max_safe :: int where
  "max_safe = 2 ^ 53 - 1"

definition createReadStream :: "string \<Rightarrow> jsnum \<Rightarrow> jsnum \<Rightarrow> js_error + stream" where
  "createReadStream path start end0 =
     (case start of
        Num a \<Rightarrow>
          if 0 \<le> a \<and> a \<le> max_safe then
            (case end0 of
               Num b \<Rightarrow>
                 if 0 \<le> b \<and> b \<le> max_safe then
                   (if a > b then Inl (RangeError ''start'')
                    else Inr (ReadStream path (Some (nat a, Some (nat b)))))
                 else Inl (RangeError ''end'')
             | PInf \<Rightarrow> Inr (ReadStream path (Some (nat a, None)))
             | NInf \<Rightarrow> Inl (RangeError ''end'')
             | NaN \<Rightarrow> Inl (RangeError ''end''))
          else Inl (RangeError ''start'')
      | NaN \<Rightarrow> Inl (RangeError ''start'')
      | PInf \<Rightarrow> Inl (RangeError ''start'')
      | NInf \<Rightarrow> Inl (RangeError ''start''))"

text \<open>
  The bytes of the file that a stream carries, before any zlib transform: a read
  stream with options reads from offset \<open>start\<close> up to and including offset \<open>end\<close>,
  and stops at the end of the file.
\<close>

fun file_bytes :: "(string \<Rightarrow> string) \<Rightarrow> stream \<Rightarrow> string" where
  "file_bytes content (ReadStream path None) = content path"
| "file_bytes content (ReadStream path (Some (a, None))) = drop a (content path)"
| "file_bytes content (ReadStream path (Some (a, Some b))) = take (Suc b - a) (drop a (content path))"
| "file_bytes content (Gzip s) = file_bytes content s"
| "file_bytes content (Deflate s) = file_bytes content s"

datatype body = NoBody | Html string | Piped stream

text \<open>
  The response object: its status code (200 until set), its headers under their
  lower-cased names (what \<open>res._headers\<close> shows) and, once the response has been ended
  or a stream piped into it, the body.
\<close>

record response =
  statusCode :: nat
  res_headers :: "string \<rightharpoonup> string"
  res_body :: "body option"

definition new_response :: response where
  "new_response = \<lparr>statusCode = 200, res_headers = Map.empty, res_body = None\<rparr>"

definition lower_char :: "char \<Rightarrow> char" where
  "lower_char c =
     (case map_of (zip ''ABCDEFGHIJKLMNOPQRSTUVWXYZ'' ''abcdefghijklmnopqrstuvwxyz'') c of
        None \<Rightarrow> c
      | Some d \<Rightarrow> d)"

definition setHeader :: "string \<Rightarrow> string \<Rightarrow> response \<Rightarrow> response" where
  "setHeader name v res = res\<lparr>res_headers := (res_headers res)(map lower_char name \<mapsto> v)\<rparr>"

definition writeHead :: "nat \<Rightarrow> (string \<times> string) list \<Rightarrow> response \<Rightarrow> response" where
  "writeHead status hs res = foldl (\<lambda>r (k, v). setHeader k v r) (res\<lparr>statusCode := status\<rparr>) hs"

definition end_response :: "body \<Rightarrow> response \<Rightarrow> response" where
  "end_response b res = res\<lparr>res_body := Some b\<rparr>"

definition pipe :: "stream \<Rightarrow> response \<Rightarrow> response" where
  "pipe s res = res\<lparr>res_body := Some (Piped s)\<rparr>"

section \<open>class StaticServer\<close>

record config =
  cfg_port :: nat
  cfg_root :: string
  cfg_indexPage :: string
  cfg_cacheControl :: bool
  cfg_expires :: bool
  cfg_etag :: bool
  cfg_lastModified :: bool
  cfg_maxAge :: int

text \<open>
  The fields of an instance. The constructor assigns all of them but \<open>zipMatch\<close>, which
  \<open>shouldCompress\<close> reads: \<open>None\<close> is the \<open>undefined\<close> of a property never assigned,
  \<open>Some re\<close> a regular expression given as the set of strings it matches.
\<close>

record StaticServer =
  port :: nat
  root :: string
  indexPage :: string
  enableCacheControl :: bool
  enableExpires :: bool
  enableETag :: bool
  enableLastModified :: bool
  maxAge :: int
  zipMatch :: "(string \<Rightarrow> bool) option"

definition constructor :: "string \<Rightarrow> config \<Rightarrow> StaticServer" where
  "constructor dirname cfg =
     \<lparr>port = cfg_port cfg,
      root = dirname @ cfg_root cfg,
      indexPage = cfg_indexPage cfg,
      enableCacheControl = cfg_cacheControl cfg,
      enableExpires = cfg_expires cfg,
      enableETag = cfg_etag cfg,
      enableLastModified = cfg_lastModified cfg,
      maxAge = cfg_maxAge cfg,
      zipMatch = None\<rparr>"

text \<open>\<open>url => url[url.length - 1] === '/'\<close>: reading \<open>length\<close> of \<open>null\<close> throws.\<close>

definition hasTrailingSlash :: "string option \<Rightarrow> js_error + bool" where
  "hasTrailingSlash url =
     (case url of
        None \<Rightarrow> Inl (TypeError ''Cannot read property length of null'')
      | Some u \<Rightarrow> Inr (case u of [] \<Rightarrow> False | c # cs \<Rightarrow> last u = CHR ''/''))"

definition respondError :: "string \<Rightarrow> response \<Rightarrow> response" where
  "respondError err res = end_response (Html err) (writeHead 500 [] res)"

definition respondNotFound :: "request \<Rightarrow> response \<Rightarrow> response" where
  "respondNotFound req res =
     end_response
       (Html (''<h1>Not Found</h1><p>The requested URL '' @ req_url req
              @ '' was not found on this server.</p>''))
       (writeHead 404 [(''Content-Type'', ''text/html'')] res)"

definition generateETag :: "stats \<Rightarrow> string" where
  "generateETag stat =
     (let mtime = int_toString16 (st_mtime stat);
          size = hex_digits (st_size stat)
      in ''W/'' @ [CHR 0x22] @ size @ ''-'' @ mtime @ [CHR 0x22])"

definition setFreshHeaders :: "StaticServer \<Rightarrow> env \<Rightarrow> stats \<Rightarrow> response \<Rightarrow> response" where
  "setFreshHeaders this e stat res =
     (let lastModified = toUTCString e (st_mtime stat);
          r1 = (if enableExpires this
                then setHeader ''Expires'' (toUTCString e (date_now e + maxAge this * 1000)) res
                else res);
          r2 = (if enableCacheControl this
                then setHeader ''Cache-Control'' (''public, max-age='' @ int_toString10 (maxAge this)) r1
                else r1);
          r3 = (if enableLastModified this then setHeader ''Last-Modified'' lastModified r2 else r2)
      in if enableETag this then setHeader ''ETag'' (generateETag stat) r3 else r3)"

definition isFresh :: "(string \<rightharpoonup> string) \<Rightarrow> (string \<rightharpoonup> string) \<Rightarrow> bool" where
  "isFresh reqHeaders resHeaders =
     (let noneMatch = reqHeaders ''if-none-match'';
          lastModified = reqHeaders ''if-modified-since''
      in if \<not> (truthy noneMatch \<or> truthy lastModified) then False
         else if truthy noneMatch \<and> noneMatch \<noteq> resHeaders ''etag'' then False
         else if truthy lastModified \<and> lastModified \<noteq> resHeaders ''last-modified'' then False
         else True)"

text \<open>
  \<open>path.extname(pathName).match(this.zipMatch)\<close>: with \<open>this.zipMatch\<close> undefined,
  \<open>String.prototype.match\<close> compiles the empty pattern, which matches every string.
\<close>

definition shouldCompress :: "StaticServer \<Rightarrow> env \<Rightarrow> string \<Rightarrow> bool" where
  "shouldCompress this e pathName =
     (case zipMatch this of
        None \<Rightarrow> True
      | Some re \<Rightarrow> re (path_extname e pathName))"

definition responseNotModified :: "response \<Rightarrow> response" where
  "responseNotModified res = end_response NoBody (res\<lparr>statusCode := 304\<rparr>)"

text \<open>The result is the stream returned, \<open>None\<close> where the function falls off its last
  \<open>else if\<close> and returns \<open>undefined\<close>.\<close>

definition compressHandler :: "stream \<Rightarrow> request \<Rightarrow> response \<Rightarrow> stream option \<times> response" where
  "compressHandler readStream req res =
     (case req_headers req ''accept-encoding'' of
        None \<Rightarrow> (Some readStream, res)
      | Some acceptEncoding \<Rightarrow>
          if acceptEncoding = [] \<or> \<not> re_gzip_or_deflate acceptEncoding then (Some readStream, res)
          else if re_gzip acceptEncoding
            then (Some (Gzip readStream), setHeader ''Content-Encoding'' ''gzip'' res)
          else if re_deflate acceptEncoding
            then (Some (Deflate readStream), setHeader ''Content-Encoding'' ''deflate'' res)
          else (None, res))"

record byte_range =
  range_start :: jsnum
  range_end :: jsnum

text \<open>Indexing the \<open>null\<close> of a failed match throws a TypeError.\<close>

definition getRange :: "string \<Rightarrow> nat \<Rightarrow> js_error + byte_range" where
  "getRange rangeText totalSize =
     (case match_range rangeText of
        None \<Rightarrow> Inl (TypeError ''Cannot read property 1 of null'')
      | Some (g1, g2) \<Rightarrow>
          let start = parseInt g1;
              end0 = parseInt g2
          in if isNaN start \<and> \<not> isNaN end0
             then Inr \<lparr>range_start = js_sub (Num (int totalSize)) end0,
                       range_end = js_sub (Num (int totalSize)) (Num 1)\<rparr>
             else if \<not> isNaN start \<and> isNaN end0
             then Inr \<lparr>range_start = start, range_end = js_sub (Num (int totalSize)) (Num 1)\<rparr>
             else Inr \<lparr>range_start = start, range_end = end0\<rparr>)"

text \<open>
  The result is the stream returned (\<open>None\<close> for \<open>null\<close>) and the response. In the
  206 branch the status and the header are set before \<open>fs.createReadStream\<close> is
  called; where that call throws, the exception leaves the handler and the response
  is never sent.
\<close>

definition rangeHandler ::
  "env \<Rightarrow> string \<Rightarrow> string \<Rightarrow> nat \<Rightarrow> response \<Rightarrow> js_error + (stream option \<times> response)" where
  "rangeHandler e pathName rangeText totalSize res =
     (case getRange rangeText totalSize of
        Inl err \<Rightarrow> Inl err
      | Inr rng \<Rightarrow>
          if js_gt (range_start rng) (Num (int totalSize))
             \<or> js_gt (range_end rng) (Num (int totalSize))
             \<or> js_gt (range_start rng) (range_end rng)
          then Inr (None,
                 end_response NoBody
                   (setHeader ''Content-Range''
                      (''bytes */'' @ js_toString (number_toString e) (Num (int totalSize)))
                      (res\<lparr>statusCode := 416\<rparr>)))
          else
            let r206 =
                  setHeader ''Content-Range''
                    (''bytes '' @ js_toString (number_toString e) (range_start rng) @ ''-''
                     @ js_toString (number_toString e) (range_end rng) @ ''/''
                     @ js_toString (number_toString e) (Num (int totalSize)))
                    (res\<lparr>statusCode := 206\<rparr>)
            in (case createReadStream pathName (range_start rng) (range_end rng) of
                  Inl err \<Rightarrow> Inl err
                | Inr readStream \<Rightarrow> Inr (Some readStream, r206)))"

definition responseFile ::
  "StaticServer \<Rightarrow> env \<Rightarrow> stats \<Rightarrow> string \<Rightarrow> request \<Rightarrow> response \<Rightarrow> js_error + response" where
  "responseFile this e stat pathName req res =
     (let r1 = setHeader ''Content-Type'' (mime_lookup e pathName) res;
          r2 = setHeader ''Accept-Ranges'' ''bytes'' r1;
          opened =
            (case req_headers req ''range'' of
               None \<Rightarrow> Inr (Some (ReadStream pathName None), r2)
             | Some rangeText \<Rightarrow>
                 if rangeText = [] then Inr (Some (ReadStream pathName None), r2)
                 else rangeHandler e pathName rangeText (st_size stat) r2)
      in case opened of
           Inl err \<Rightarrow> Inl err
         | Inr (None, r3) \<Rightarrow> Inr r3
         | Inr (Some readStream, r3) \<Rightarrow>
             if shouldCompress this e pathName then
               (case compressHandler readStream req r3 of
                  (None, r4) \<Rightarrow> Inl (TypeError ''Cannot read property pipe of undefined'')
                | (Some zipped, r4) \<Rightarrow> Inr (pipe zipped r4))
             else Inr (pipe readStream r3))"

text \<open>
  In the callbacks of \<open>respond\<close> and \<open>respondDirectory\<close> the error branch calls
  \<open>respondError(err, res)\<close> without \<open>this\<close>: no such variable is in scope, so evaluating
  the call throws a ReferenceError before anything is written.
\<close>

definition respond ::
  "StaticServer \<Rightarrow> env \<Rightarrow> string \<Rightarrow> request \<Rightarrow> response \<Rightarrow> js_error + response" where
  "respond this e pathName req res =
     (case fs_stat e pathName of
        None \<Rightarrow> Inl (ReferenceError ''respondError is not defined'')
      | Some stat \<Rightarrow>
          let r1 = setFreshHeaders this e stat res
          in if isFresh (req_headers req) (res_headers r1) then Inr (responseNotModified r1)
             else responseFile this e stat pathName req r1)"

definition respondRedirect :: "request \<Rightarrow> response \<Rightarrow> response" where
  "respondRedirect req res =
     (let location = req_url req @ ''/''
      in end_response
           (Html (''Redirecting to <a href='' @ [CHR 0x27] @ location @ [CHR 0x27] @ ''>''
                  @ location @ ''</a>''))
           (writeHead 301 [(''Location'', location), (''Content-Type'', ''text/html'')] res))"

text \<open>The \<open>files.forEach\<close> of the directory listing: \<open>path.join\<close> throws a TypeError
  for a \<open>null\<close> request path, \<open>fs.statSync\<close> throws where the entry cannot be read.\<close>

fun listing ::
  "env \<Rightarrow> string \<Rightarrow> string option \<Rightarrow> string list \<Rightarrow> string \<Rightarrow> js_error + string" where
  "listing e pathName requestPath [] content = Inr content"
| "listing e pathName None (file # files) content =
     Inl (TypeError ''The path argument must be of type string'')"
| "listing e pathName (Some requestPath) (file # files) content =
     (case fs_stat e (path_join pathName file) of
        None \<Rightarrow> Inl (SystemError ''ENOENT'')
      | Some stat \<Rightarrow>
          let itemLink0 = path_join requestPath file;
              itemLink = (if st_isDirectory stat then path_join itemLink0 ''/'' else itemLink0)
          in listing e pathName (Some requestPath) files
               (content @ ''<p><a href='' @ [CHR 0x27] @ itemLink @ [CHR 0x27] @ ''>''
                @ file @ ''</a></p>''))"

text \<open>What a template literal prints for a pathname.\<close>

fun pathname_text :: "string option \<Rightarrow> string" where
  "pathname_text None = ''null''"
| "pathname_text (Some p) = p"

definition respondDirectory ::
  "StaticServer \<Rightarrow> env \<Rightarrow> string \<Rightarrow> request \<Rightarrow> response \<Rightarrow> js_error + response" where
  "respondDirectory this e pathName req res =
     (let indexPagePath = path_join pathName (indexPage this)
      in if fs_existsSync e indexPagePath then respond this e indexPagePath req res
         else
           (case fs_readdir e pathName of
              Inl err \<Rightarrow> Inl (ReferenceError ''respondError is not defined'')
            | Inr files \<Rightarrow>
                let requestPath = url_pathname e (req_url req)
                in (case listing e pathName requestPath files
                          (''<h1>Index of '' @ pathname_text requestPath @ ''</h1>'') of
                      Inl err \<Rightarrow> Inl err
                    | Inr content \<Rightarrow>
                        Inr (end_response (Html content)
                               (writeHead 200 [(''Content-Type'', ''text/html'')] res)))))"

text \<open>\<open>hasTrailingSlash\<close> reads \<open>url.length\<close> first, which throws a TypeError on the
  \<open>null\<close> pathname, before the directory test of the same condition is reached.\<close>

definition routeHandler ::
  "StaticServer \<Rightarrow> env \<Rightarrow> string \<Rightarrow> request \<Rightarrow> response \<Rightarrow> js_error + response" where
  "routeHandler this e pathName req res =
     (case fs_stat e pathName of
        Some stat \<Rightarrow>
          let requestedPath = url_pathname e (req_url req)
          in (case hasTrailingSlash requestedPath of
                Inl err \<Rightarrow> Inl err
              | Inr slash \<Rightarrow>
                  if slash \<and> st_isDirectory stat
                  then respondDirectory this e pathName req res
                  else if st_isDirectory stat then Inr (respondRedirect req res)
                  else respond this e pathName req res)
      | None \<Rightarrow> Inr (respondNotFound req res))"

text \<open>The path the request listener of \<open>start\<close> resolves, and the listener itself.\<close>

definition resolve :: "StaticServer \<Rightarrow> string \<Rightarrow> string" where
  "resolve this u = path_join (root this) (path_normalize u)"

definition handle :: "StaticServer \<Rightarrow> env \<Rightarrow> request \<Rightarrow> js_error + response" where
  "handle this e req = routeHandler this e (resolve this (req_url req)) req new_response"

section \<open>The conditions of the specification\<close>

text \<open>
  A token \<open>w\<close> of a header value: an occurrence of \<open>w\<close> with no word character right
  before it and none right after it.
\<close>

fun last_char :: "string \<Rightarrow> char option" where
  "last_char [] = None"
| "last_char (c # cs) = Some (last (c # cs))"

definition has_token :: "string \<Rightarrow> string \<Rightarrow> bool" where
  "has_token w s =
     (\<exists>pre post. s = pre @ w @ post \<and> \<not> is_word (last_char pre) \<and> \<not> is_word (first_char post))"

text \<open>
  Freshness as the specification words it: the request carries one of the two
  conditional headers, and each one it carries equals the computed validator.
\<close>

definition carried_fresh ::
  "(string \<rightharpoonup> string) \<Rightarrow> string option \<Rightarrow> string option \<Rightarrow> bool" where
  "carried_fresh reqHeaders etag lastModified =
     ((reqHeaders ''if-none-match'' \<noteq> None \<or> reqHeaders ''if-modified-since'' \<noteq> None)
      \<and> (case reqHeaders ''if-none-match'' of None \<Rightarrow> True | Some v \<Rightarrow> etag = Some v)
      \<and> (case reqHeaders ''if-modified-since'' of None \<Rightarrow> True | Some v \<Rightarrow> lastModified = Some v))"

text \<open>
  Freshness as \<open>isFresh\<close> tests it: a conditional header counts only where its value is
  truthy, that is, present and not empty.
\<close>

definition truthy_fresh ::
  "(string \<rightharpoonup> string) \<Rightarrow> string option \<Rightarrow> string option \<Rightarrow> bool" where
  "truthy_fresh reqHeaders etag lastModified =
     ((truthy (reqHeaders ''if-none-match'') \<or> truthy (reqHeaders ''if-modified-since''))
      \<and> (truthy (reqHeaders ''if-none-match'') \<longrightarrow> reqHeaders ''if-none-match'' = etag)
      \<and> (truthy (reqHeaders ''if-modified-since'') \<longrightarrow> reqHeaders ''if-modified-since'' = lastModified))"

text \<open>The validators \<open>setFreshHeaders\<close> computes, where the configuration enables them.\<close>

definition computed_etag :: "StaticServer \<Rightarrow> stats \<Rightarrow> string option" where
  "computed_etag this stat = (if enableETag this then Some (generateETag stat) else None)"

definition computed_lastModified :: "StaticServer \<Rightarrow> env \<Rightarrow> stats \<Rightarrow> string option" where
  "computed_lastModified this e stat =
     (if enableLastModified this then Some (toUTCString e (st_mtime stat)) else None)"

text \<open>
  The bytes \<open>bs\<close> are exactly the bytes at the offsets \<open>a\<close> to \<open>b\<close> of a file: the
  offsets are in order, all of them are offsets of the file, and \<open>bs\<close> is that slice.
\<close>

definition carries_span :: "string \<Rightarrow> nat \<Rightarrow> nat \<Rightarrow> string \<Rightarrow> bool" where
  "carries_span content a b bs =
     (a \<le> b \<and> b < length content \<and> bs = take (Suc b - a) (drop a content))"

text \<open>
  A path segment that names an entry: not empty, not \<open>.\<close> or \<open>..\<close>, and without a
  slash. \<open>slashed\<close> writes a list of segments as an absolute path.
\<close>

definition clean_segment :: "string \<Rightarrow> bool" where
  "clean_segment seg = (seg \<noteq> [] \<and> seg \<noteq> ''.'' \<and> seg \<noteq> ''..'' \<and> CHR ''/'' \<notin> set seg)"

fun slashed :: "string list \<Rightarrow> string" where
  "slashed [] = []"
| "slashed (s # ss) = CHR ''/'' # s @ slashed ss"

section \<open>A concrete server and file tree\<close>

text \<open>
  A server rooted at \<open>/srv/www\<close> with every caching header enabled, and a small file
  tree around it, for evaluating the handlers on concrete requests. The clock of the
  tree stays within the first ten seconds of 1970, where \<open>sample_utc\<close> is what
  \<open>Date.prototype.toUTCString\<close> prints. \<open>sample_pathname\<close> is \<open>url.parse(u).pathname\<close>
  for a request target written with letters, digits and \<open>/ . : ? # - _\<close> (nothing that
  \<open>url.parse\<close> escapes): the text before the first \<open>#\<close> and \<open>?\<close>, without scheme and
  host where the target begins with \<open>scheme://\<close>; an empty path is \<open>null\<close>, or \<open>/\<close>
  behind a host of one of the schemes \<open>url.parse\<close> knows to have one. \<open>sample_extname\<close>
  is \<open>path.extname\<close>: the last dot of the last segment and what follows it, unless the
  segment is \<open>..\<close> or has nothing before that dot. \<open>sample_number_text\<close> is
  \<open>Number.prototype.toString\<close> for an integer double from \<open>2^53\<close> to \<open>2^54\<close>, where
  doubles are 2 apart and no shorter run of digits reads back as the same double.
\<close>

definition sample_server :: StaticServer where
  "sample_server =
     constructor ''/srv''
       \<lparr>cfg_port = 3000, cfg_root = ''/www'', cfg_indexPage = ''index.html'',
        cfg_cacheControl = True, cfg_expires = True, cfg_etag = True,
        cfg_lastModified = True, cfg_maxAge = 5\<rparr>"

definition sample_file :: "nat \<Rightarrow> stats" where
  "sample_file n = \<lparr>st_size = n, st_mtime = 4096, st_isDirectory = False\<rparr>"

definition sample_dir :: stats where
  "sample_dir = \<lparr>st_size = 0, st_mtime = 4096, st_isDirectory = True\<rparr>"

definition sample_tree :: "(string \<times> stats) list" where
  "sample_tree =
     [(''/srv/www/a.png'', sample_file 3),
      (''/srv/www/docs'', sample_dir),
      (''/srv/www/docs/'', sample_dir),
      (''/srv/www/docs/index.html'', sample_file 7),
      (''/srv/www/pub/'', sample_dir),
      (''/srv/www/pub/x.txt'', sample_file 1),
      (''/srv/www/pub/sub'', sample_dir),
      (''/srv/www/locked/'', sample_dir),
      (''/srv/etc/passwd'', sample_file 9)]"

definition sample_readdir :: "string \<Rightarrow> string + string list" where
  "sample_readdir p =
     (if p = ''/srv/www/pub/'' then Inr [''x.txt'', ''sub'']
      else if p = ''/srv/www/docs/'' then Inr [''index.html'']
      else Inl ''EACCES: permission denied'')"

definition sample_utc :: "int \<Rightarrow> string" where
  "sample_utc ms = ''Thu, 01 Jan 1970 00:00:0'' @ int_toString10 (ms div 1000) @ '' GMT''"

definition sample_pathname :: "string \<Rightarrow> string option" where
  "sample_pathname u =
     (let noHash = takeWhile (\<lambda>c. c \<noteq> CHR ''#'') u;
          scheme = takeWhile (\<lambda>c. c \<notin> set ''/?:'') noHash;
          rest = drop (length scheme) noHash
      in if scheme \<noteq> [] \<and> take 3 rest = ''://'' then
           (let host = takeWhile (\<lambda>c. c \<notin> set ''/?'') (drop 3 rest);
                p = takeWhile (\<lambda>c. c \<noteq> CHR ''?'') (drop (length host) (drop 3 rest))
            in if p \<noteq> [] then Some p
               else if host \<noteq> [] \<and> scheme \<in> set [''http'', ''https'', ''ftp'', ''gopher'', ''file'']
                 then Some ''/''
               else None)
         else
           (let p = takeWhile (\<lambda>c. c \<noteq> CHR ''?'') noHash
            in if p = [] then None else Some p))"

definition sample_extname :: "string \<Rightarrow> string" where
  "sample_extname p =
     (let segs = filter (\<lambda>s. s \<noteq> []) (split_slash p);
          base = (if segs = [] then [] else last segs);
          ext = rev (takeWhile (\<lambda>c. c \<noteq> CHR ''.'') (rev base));
          stem = take (length base - length ext - 1) base
      in if base = ''..'' then []
         else if stem = [] then []
         else if CHR ''.'' \<in> set base then CHR ''.'' # ext
         else [])"

definition sample_bytes :: "string \<Rightarrow> string" where
  "sample_bytes p =
     (case map_of [(''/srv/www/a.png'', ''abc''),
                   (''/srv/www/docs/index.html'', ''<p></p>''),
                   (''/srv/www/pub/x.txt'', ''x''),
                   (''/srv/etc/passwd'', ''root:x:0:'')] p of
        None \<Rightarrow> []
      | Some bytes \<Rightarrow> bytes)"

definition sample_number_text :: "int \<Rightarrow> string" where
  "sample_number_text i = int_toString10 i"

definition sample_env :: env where
  "sample_env =
     \<lparr>fs_stat = map_of sample_tree,
      fs_existsSync = (\<lambda>p. p \<in> set (map fst sample_tree)),
      fs_readdir = sample_readdir,
      fs_bytes = sample_bytes,
      url_pathname = sample_pathname,
      mime_lookup = (\<lambda>p. ''application/octet-stream''),
      path_extname = sample_extname,
      toUTCString = sample_utc,
      date_now = 1000,
      number_toString = sample_number_text\<rparr>"

definition get :: "string \<Rightarrow> (string \<times> string) list \<Rightarrow> request" where
  "get u hs = \<lparr>req_url = u, req_headers = map_of hs\<rparr>"

text \<open>What a client sees of a finished request: status, one header, body.\<close>

definition seen :: "string \<Rightarrow> js_error + response \<Rightarrow> js_error + (nat \<times> string option \<times> body option)" where
  "seen h out =
     (case out of
        Inl err \<Rightarrow> Inl err
      | Inr r \<Rightarrow> Inr (statusCode r, res_headers r h, res_body r))"

section \<open>Facts about the helpers\<close>

subsection \<open>Doubles\<close>

lemma bit_length_le: "n < 2 ^ k \<Longrightarrow> bit_length n \<le> k"
proof (induction k arbitrary: n)
  case 0
  then show ?case by (simp add: bit_length.simps)
next
  case (Suc k)
  show ?case
  proof (cases "n = 0")
    case True
    then show ?thesis by (simp add: bit_length.simps)
  next
    case False
    have "n div 2 < 2 ^ k" using Suc.prems by auto
    then have "bit_length (n div 2) \<le> k" by (rule Suc.IH)
    then show ?thesis using False by (simp add: bit_length.simps [of n])
  qed
qed

lemma bit_length_eq: "2 ^ k \<le> n \<Longrightarrow> n < 2 ^ Suc k \<Longrightarrow> bit_length n = Suc k"
proof (induction k arbitrary: n)
  case 0
  then have "n = 1" by simp
  then show ?case by (simp add: bit_length.simps)
next
  case (Suc k)
  have "2 ^ k \<le> n div 2" "n div 2 < 2 ^ Suc k" using Suc.prems by auto
  then have "bit_length (n div 2) = Suc k" by (rule Suc.IH)
  moreover have "n \<noteq> 0" using Suc.prems by auto
  ultimately show ?case by (simp add: bit_length.simps [of n])
qed

lemma round_even_exact: "n \<le> 2 ^ 53 \<Longrightarrow> round_even n = n"
proof (cases "n < 2 ^ 53")
  case True
  then have "bit_length n \<le> 53" by (rule bit_length_le)
  then show ?thesis by (simp add: round_even_def)
next
  case False
  assume "n \<le> 2 ^ 53"
  with False have n: "n = 2 ^ 53" by simp
  have "bit_length n = Suc 53"
    by (rule bit_length_eq) (simp_all add: n)
  then show ?thesis
    by (simp add: round_even_def n)
qed

text \<open>Every integer up to \<open>2^53\<close> in magnitude is a double.\<close>

lemma js_number_exact: "\<bar>i\<bar> \<le> 2 ^ 53 \<Longrightarrow> js_number i = Num i"
proof -
  assume a: "\<bar>i\<bar> \<le> 2 ^ 53"
  then have "nat \<bar>i\<bar> \<le> 2 ^ 53"
    by (simp add: nat_le_iff)
  then have r: "round_even (nat \<bar>i\<bar>) = nat \<bar>i\<bar>"
    by (rule round_even_exact)
  have "nat \<bar>i\<bar> < 2 ^ 1024"
    using \<open>nat \<bar>i\<bar> \<le> 2 ^ 53\<close> by (rule le_less_trans) simp
  then show ?thesis
    using r by (auto simp: js_number_def Let_def)
qed

text \<open>\<open>2^53 + 1\<close> lies half way between two doubles and goes to the even one.\<close>

lemma js_number_ties_to_even: "js_number 9007199254740993 = Num 9007199254740992"
proof -
  have "bit_length 9007199254740993 = Suc 53"
    by (rule bit_length_eq) simp_all
  then have "round_even 9007199254740993 = 9007199254740992"
    by (simp add: round_even_def)
  then show ?thesis
    by (simp add: js_number_def Let_def)
qed

lemma js_toString_exact:
  "int n \<le> 2 ^ 53 \<Longrightarrow> js_toString big (Num (int n)) = dec_digits n"
  by (simp add: int_toString10_def)

subsection \<open>Decimal digits\<close>

lemma digit_val_digit_char: "k < 10 \<Longrightarrow> digit_val (digit_char k) = int k"
proof -
  assume "k < 10"
  then have "k \<in> {0, 1, 2, 3, 4, 5, 6, 7, 8, 9}" by auto
  then show ?thesis
    by (auto simp: digit_val_def digit_char_def)
qed

lemma is_digit_digit_char: "k < 10 \<Longrightarrow> is_digit (digit_char k)"
proof -
  assume "k < 10"
  then have "k \<in> {0, 1, 2, 3, 4, 5, 6, 7, 8, 9}" by auto
  then show ?thesis
    by (auto simp: is_digit_def digit_char_def)
qed

lemma dec_value_snoc: "dec_value (ds @ [c]) = 10 * dec_value ds + digit_val c"
  by (simp add: dec_value_def)

text \<open>\<open>dec_value\<close> reads back the number that \<open>dec_digits\<close> writes.\<close>

lemma dec_value_dec_digits: "dec_value (dec_digits n) = int n"
proof (induction n rule: dec_digits.induct)
  case (1 n)
  show ?case
  proof (cases "n < 10")
    case True
    then show ?thesis
      by (simp add: dec_digits.simps [of n] dec_value_def digit_val_digit_char)
  next
    case False
    then have "dec_value (dec_digits (n div 10)) = int (n div 10)"
      using "1.IH" by simp
    then show ?thesis
      using False
      by (simp add: dec_digits.simps [of n] dec_value_snoc digit_val_digit_char zdiv_int zmod_int)
  qed
qed

lemma dec_digits_are_digits: "list_all is_digit (dec_digits n) \<and> dec_digits n \<noteq> []"
proof (induction n rule: dec_digits.induct)
  case (1 n)
  show ?case
  proof (cases "n < 10")
    case True
    then show ?thesis
      by (simp add: dec_digits.simps [of n] is_digit_digit_char)
  next
    case False
    then show ?thesis
      using "1.IH" by (simp add: dec_digits.simps [of n] is_digit_digit_char)
  qed
qed

lemma takeWhile_all: "list_all P xs \<Longrightarrow> takeWhile P xs = xs"
  by (induction xs) auto

lemma parseInt_digits:
  "list_all is_digit ds \<Longrightarrow> ds \<noteq> [] \<Longrightarrow> \<bar>dec_value ds\<bar> \<le> 2 ^ 53
     \<Longrightarrow> parseInt ds = Num (dec_value ds)"
  by (simp add: parseInt_def takeWhile_all js_number_exact)

text \<open>Zeros in front change neither the digits' being digits nor the number written.\<close>

lemma zeros_are_digits: "list_all is_digit (replicate k CHR ''0'' @ dec_digits n)"
proof -
  have "is_digit CHR ''0''"
    by (simp add: is_digit_def)
  then have "list_all is_digit (replicate k CHR ''0'')"
    by (simp add: list_all_iff)
  then show ?thesis
    using dec_digits_are_digits [of n] by simp
qed

lemma dec_value_zeros: "dec_value (replicate k CHR ''0'' @ ds) = dec_value ds"
proof -
  have "foldl (\<lambda>a c. 10 * a + digit_val c) 0 (replicate k CHR ''0'') = 0"
    by (induction k) (simp_all add: digit_val_def)
  then show ?thesis
    by (simp add: dec_value_def)
qed

lemma parseInt_decimal:
  "int n \<le> 2 ^ 53 \<Longrightarrow> parseInt (replicate k CHR ''0'' @ dec_digits n) = Num (int n)"
  using zeros_are_digits [of k n] dec_digits_are_digits [of n]
  by (simp add: parseInt_digits dec_value_zeros dec_value_dec_digits)

lemma parseInt_empty: "parseInt [] = NaN"
  by (simp add: parseInt_def)

subsection \<open>The range pattern\<close>

lemma not_digit_dash: "\<not> is_digit CHR ''-''"
  by (simp add: is_digit_def)

lemma match_range_at_suffix:
  "match_range_at (''bytes=-'' @ ds) = Some ([], takeWhile is_digit ds)"
  by (simp add: match_range_at_def not_digit_dash)

lemma match_range_at_open:
  assumes "list_all is_digit ds"
  shows "match_range_at (''bytes='' @ ds @ ''-'' @ rest) = Some (ds, takeWhile is_digit rest)"
proof -
  have d: "\<And>x. x \<in> set ds \<Longrightarrow> is_digit x"
    using assms by (simp add: list_all_iff)
  have "dropWhile is_digit (ds @ ''-'' @ rest) = ''-'' @ rest"
    using d by (simp add: dropWhile_append2 not_digit_dash)
  moreover have "takeWhile is_digit (ds @ ''-'' @ rest) = ds"
    using d by (simp add: takeWhile_append2 not_digit_dash)
  ultimately show ?thesis
    by (simp add: match_range_at_def)
qed

subsection \<open>Headers\<close>

text \<open>\<open>setHeader\<close> files each header of server.js under its lower-cased name.\<close>

lemma setHeader_known:
  "setHeader ''Content-Range'' v r = r\<lparr>res_headers := (res_headers r)(''content-range'' \<mapsto> v)\<rparr>"
  "setHeader ''Content-Encoding'' v r = r\<lparr>res_headers := (res_headers r)(''content-encoding'' \<mapsto> v)\<rparr>"
  "setHeader ''Content-Type'' v r = r\<lparr>res_headers := (res_headers r)(''content-type'' \<mapsto> v)\<rparr>"
  "setHeader ''Accept-Ranges'' v r = r\<lparr>res_headers := (res_headers r)(''accept-ranges'' \<mapsto> v)\<rparr>"
  "setHeader ''Expires'' v r = r\<lparr>res_headers := (res_headers r)(''expires'' \<mapsto> v)\<rparr>"
  "setHeader ''Cache-Control'' v r = r\<lparr>res_headers := (res_headers r)(''cache-control'' \<mapsto> v)\<rparr>"
  "setHeader ''Last-Modified'' v r = r\<lparr>res_headers := (res_headers r)(''last-modified'' \<mapsto> v)\<rparr>"
  "setHeader ''ETag'' v r = r\<lparr>res_headers := (res_headers r)(''etag'' \<mapsto> v)\<rparr>"
  "setHeader ''Location'' v r = r\<lparr>res_headers := (res_headers r)(''location'' \<mapsto> v)\<rparr>"
  by (simp_all add: setHeader_def lower_char_def)

subsection \<open>The sample tree\<close>

lemma sample_stat:
  "fs_stat sample_env ''/srv/www/nope'' = None"
  "fs_stat sample_env ''/srv/www/a.png'' = Some (sample_file 3)"
  "fs_stat sample_env ''/srv/www/docs'' = Some sample_dir"
  "fs_stat sample_env ''/srv/www/docs/'' = Some sample_dir"
  "fs_stat sample_env ''/srv/www/pub/'' = Some sample_dir"
  "fs_stat sample_env ''/srv/www/pub/x.txt'' = Some (sample_file 1)"
  "fs_stat sample_env ''/srv/www/pub/sub'' = Some sample_dir"
  "fs_stat sample_env ''/srv/www/locked/'' = Some sample_dir"
  "fs_stat sample_env ''/srv/etc/passwd'' = Some (sample_file 9)"
  by (simp_all add: sample_env_def sample_tree_def)

lemma sample_kinds: "st_isDirectory sample_dir" "\<not> st_isDirectory (sample_file n)"
  by (simp_all add: sample_dir_def sample_file_def)

lemma sample_exists:
  "fs_existsSync sample_env ''/srv/www/docs/index.html''"
  "\<not> fs_existsSync sample_env ''/srv/www/pub/index.html''"
  "\<not> fs_existsSync sample_env ''/srv/www/locked/index.html''"
  by (simp_all add: sample_env_def sample_tree_def)

lemma sample_index:
  "path_join ''/srv/www/docs/'' (indexPage sample_server) = ''/srv/www/docs/index.html''"
  "path_join ''/srv/www/pub/'' (indexPage sample_server) = ''/srv/www/pub/index.html''"
  "path_join ''/srv/www/locked/'' (indexPage sample_server) = ''/srv/www/locked/index.html''"
  by (simp_all add: sample_server_def constructor_def path_join_def path_normalize_def)

lemma sample_pathnames:
  "url_pathname sample_env ''/nope'' = Some ''/nope''"
  "url_pathname sample_env ''/docs'' = Some ''/docs''"
  "url_pathname sample_env ''/docs/'' = Some ''/docs/''"
  "url_pathname sample_env ''/pub/'' = Some ''/pub/''"
  "url_pathname sample_env ''/locked/'' = Some ''/locked/''"
  "url_pathname sample_env ''/a.png'' = Some ''/a.png''"
  "url_pathname sample_env ''http://x/../../../etc/passwd'' = Some ''/../../../etc/passwd''"
  "url_pathname sample_env ''a://x?/../../pub/'' = None"
  "url_pathname sample_env ''a://x?/../../a.png'' = None"
  by (simp_all add: sample_env_def sample_pathname_def Let_def)

lemma hasTrailingSlash_simps:
  "hasTrailingSlash None = Inl (TypeError ''Cannot read property length of null'')"
  "hasTrailingSlash (Some []) = Inr False"
  "hasTrailingSlash (Some (c # cs)) = Inr (last (c # cs) = CHR ''/'')"
  by (simp_all add: hasTrailingSlash_def)

lemma sample_resolve:
  "resolve sample_server ''/a.png'' = ''/srv/www/a.png''"
  "resolve sample_server ''/locked/'' = ''/srv/www/locked/''"
  "resolve sample_server ''a://x?/../../pub/'' = ''/srv/www/pub/''"
  "resolve sample_server ''a://x?/../../a.png'' = ''/srv/www/a.png''"
  by (simp_all add: resolve_def sample_server_def constructor_def path_join_def path_normalize_def)

lemma sample_flags:
  "enableETag sample_server" "enableLastModified sample_server"
  "enableExpires sample_server" "enableCacheControl sample_server"
  "zipMatch sample_server = None"
  by (simp_all add: sample_server_def constructor_def)

lemma sample_etag: "generateETag (sample_file 3) = ''W/'' @ [CHR 0x22] @ ''3-1000'' @ [CHR 0x22]"
  by (simp add: generateETag_def sample_file_def int_toString16_def hex_digits.simps digit_char_def)

lemma sample_lastModified:
  "toUTCString sample_env (st_mtime (sample_file n)) = ''Thu, 01 Jan 1970 00:00:04 GMT''"
  by (simp add: sample_env_def sample_utc_def sample_file_def int_toString10_def
      dec_digits.simps digit_char_def)

lemma sample_pub_listing:
  "fs_readdir sample_env ''/srv/www/pub/'' = Inr [''x.txt'', ''sub'']"
  "listing sample_env ''/srv/www/pub/'' (Some ''/pub/'') [''x.txt'', ''sub''] ''<h1>Index of /pub/</h1>''
     = Inr (''<h1>Index of /pub/</h1><p><a href='' @ [CHR 0x27] @ ''/pub/x.txt'' @ [CHR 0x27]
            @ ''>x.txt</a></p><p><a href='' @ [CHR 0x27] @ ''/pub/sub/'' @ [CHR 0x27]
            @ ''>sub</a></p>'')"
proof -
  show "fs_readdir sample_env ''/srv/www/pub/'' = Inr [''x.txt'', ''sub'']"
    by (simp add: sample_env_def sample_readdir_def)
  have j: "path_join ''/srv/www/pub/'' ''x.txt'' = ''/srv/www/pub/x.txt''"
    "path_join ''/srv/www/pub/'' ''sub'' = ''/srv/www/pub/sub''"
    "path_join ''/pub/'' ''x.txt'' = ''/pub/x.txt''"
    "path_join ''/pub/'' ''sub'' = ''/pub/sub''"
    "path_join ''/pub/sub'' ''/'' = ''/pub/sub/''"
    by (simp_all add: path_join_def path_normalize_def)
  show "listing sample_env ''/srv/www/pub/'' (Some ''/pub/'') [''x.txt'', ''sub''] ''<h1>Index of /pub/</h1>''
     = Inr (''<h1>Index of /pub/</h1><p><a href='' @ [CHR 0x27] @ ''/pub/x.txt'' @ [CHR 0x27]
            @ ''>x.txt</a></p><p><a href='' @ [CHR 0x27] @ ''/pub/sub/'' @ [CHR 0x27]
            @ ''>sub</a></p>'')"
    by (simp add: j sample_stat sample_kinds)
qed

lemma sample_content:
  "fs_bytes sample_env ''/srv/www/a.png'' = ''abc''"
  by (simp add: sample_env_def sample_bytes_def)

lemma dec_digits_small: "dec_digits 3 = ''3''" "dec_digits 9 = ''9''"
  by (simp_all add: dec_digits.simps digit_char_def)

lemma get_sel: "req_url (get u hs) = u" "req_headers (get u hs) k = map_of hs k"
  by (simp_all add: get_def)

lemma sample_env_sel:
  "mime_lookup sample_env p = ''application/octet-stream''"
  "path_extname sample_env p = sample_extname p"
  "fs_readdir sample_env p = sample_readdir p"
  "number_toString sample_env = sample_number_text"
  by (simp_all add: sample_env_def)

lemma sample_getRange:
  "getRange ''bytes=-'' 3 = Inr \<lparr>range_start = NaN, range_end = NaN\<rparr>"
  "getRange ''items=0-1'' 3 = Inl (TypeError ''Cannot read property 1 of null'')"
  "getRange ''bytes=-5'' 3 = Inr \<lparr>range_start = Num (- 2), range_end = Num 2\<rparr>"
  "getRange ''bytes=0-3'' 3 = Inr \<lparr>range_start = Num 0, range_end = Num 3\<rparr>"
  "getRange ''bytes=-0'' 3 = Inr \<lparr>range_start = Num 3, range_end = Num 2\<rparr>"
  "getRange ''bytes=1-2'' 3 = Inr \<lparr>range_start = Num 1, range_end = Num 2\<rparr>"
  "getRange ''bytes=4-'' 3 = Inr \<lparr>range_start = Num 4, range_end = Num 2\<rparr>"
  by (simp_all add: getRange_def match_range_at_def is_digit_def parseInt_def dec_value_def
      digit_val_def js_number_exact)

lemma handle_file:
  "handle sample_server sample_env (get ''/a.png'' hs) =
     respond sample_server sample_env ''/srv/www/a.png'' (get ''/a.png'' hs) new_response"
  by (simp add: handle_def routeHandler_def get_sel sample_resolve sample_stat sample_kinds
      sample_pathnames hasTrailingSlash_simps)

text \<open>No instance has a \<open>zipMatch\<close>, so every path is to be compressed.\<close>

lemma shouldCompress_constructor: "shouldCompress (constructor dirname cfg) e p"
  by (simp add: shouldCompress_def constructor_def)

lemma shouldCompress_sample: "shouldCompress sample_server e p"
  by (simp add: shouldCompress_def sample_flags)

text \<open>A request without conditional headers goes on to \<open>responseFile\<close>.\<close>

lemma respond_unconditional:
  assumes "fs_stat e p = Some stat"
    and "map_of hs ''if-none-match'' = None" and "map_of hs ''if-modified-since'' = None"
  shows "respond this e p (get u hs) new_response
     = responseFile this e stat p (get u hs) (setFreshHeaders this e stat new_response)"
  using assms by (simp add: respond_def isFresh_def get_sel)

lemma setFreshHeaders_other:
  "statusCode (setFreshHeaders this e stat new_response) = 200"
  "res_headers (setFreshHeaders this e stat new_response) ''content-range'' = None"
  "res_headers (setFreshHeaders this e stat new_response) ''content-encoding'' = None"
  "res_headers (setFreshHeaders this e stat new_response) ''content-type'' = None"
  by (simp_all add: setFreshHeaders_def Let_def setHeader_known new_response_def)


section \<open>Compression\<close>

subsection \<open>The word-boundary search finds exactly the tokens\<close>

lemma word_at_iff:
  "word_at w prev s \<longleftrightarrow>
     w \<noteq> [] \<and> (\<exists>post. s = w @ post \<and> boundary prev (first_char w)
                       \<and> boundary (Some (last w)) (first_char post))"
proof
  assume a: "word_at w prev s"
  then have "s = w @ drop (length w) s"
    by (metis word_at_def append_take_drop_id)
  with a show "w \<noteq> [] \<and> (\<exists>post. s = w @ post \<and> boundary prev (first_char w)
                       \<and> boundary (Some (last w)) (first_char post))"
    unfolding word_at_def by blast
next
  assume "w \<noteq> [] \<and> (\<exists>post. s = w @ post \<and> boundary prev (first_char w)
                       \<and> boundary (Some (last w)) (first_char post))"
  then show "word_at w prev s"
    by (auto simp: word_at_def)
qed

lemma search_from_iff:
  "search_from ws prev s \<longleftrightarrow>
     (\<exists>w \<in> set ws. \<exists>pre post. s = pre @ w @ post \<and> w \<noteq> []
        \<and> boundary (if pre = [] then prev else last_char pre) (first_char w)
        \<and> boundary (Some (last w)) (first_char post))"
proof (induction s arbitrary: prev)
  case Nil
  then show ?case by simp
next
  case (Cons c cs)
  show ?case
  proof
    assume "search_from ws prev (c # cs)"
    then consider (here) "list_ex (\<lambda>w. word_at w prev (c # cs)) ws"
      | (later) "search_from ws (Some c) cs"
      by auto
    then show "\<exists>w \<in> set ws. \<exists>pre post. c # cs = pre @ w @ post \<and> w \<noteq> []
        \<and> boundary (if pre = [] then prev else last_char pre) (first_char w)
        \<and> boundary (Some (last w)) (first_char post)"
    proof cases
      case here
      then obtain w post where "w \<in> set ws" "w \<noteq> []" "c # cs = w @ post"
        "boundary prev (first_char w)" "boundary (Some (last w)) (first_char post)"
        by (auto simp: list_ex_iff word_at_iff)
      then show ?thesis
        by (intro bexI [of _ w] exI [of _ "[]"] exI [of _ post]) auto
    next
      case later
      then obtain w pre post where w: "w \<in> set ws" "cs = pre @ w @ post" "w \<noteq> []"
        "boundary (if pre = [] then Some c else last_char pre) (first_char w)"
        "boundary (Some (last w)) (first_char post)"
        using Cons.IH [of "Some c"] by blast
      have "(if pre = [] then Some c else last_char pre) = last_char (c # pre)"
        by (cases pre) auto
      with w show ?thesis
        by (intro bexI [of _ w] exI [of _ "c # pre"] exI [of _ post]) auto
    qed
  next
    assume "\<exists>w \<in> set ws. \<exists>pre post. c # cs = pre @ w @ post \<and> w \<noteq> []
        \<and> boundary (if pre = [] then prev else last_char pre) (first_char w)
        \<and> boundary (Some (last w)) (first_char post)"
    then obtain w pre post where w: "w \<in> set ws" "c # cs = pre @ w @ post" "w \<noteq> []"
        "boundary (if pre = [] then prev else last_char pre) (first_char w)"
        "boundary (Some (last w)) (first_char post)"
      by blast
    show "search_from ws prev (c # cs)"
    proof (cases pre)
      case Nil
      with w have "word_at w prev (c # cs)"
        by (auto simp: word_at_iff)
      with w(1) show ?thesis
        by (auto simp: list_ex_iff)
    next
      case (Cons d pre')
      with w(2) have cs: "cs = pre' @ w @ post" and "d = c"
        by auto
      have "(if pre' = [] then Some c else last_char pre') = last_char pre"
        using Cons \<open>d = c\<close> by (cases pre') auto
      with w Cons have "boundary (if pre' = [] then Some c else last_char pre') (first_char w)"
        by simp
      with w cs have "search_from ws (Some c) cs"
        using Cons.IH [of "Some c"] by blast
      then show ?thesis by simp
    qed
  qed
qed

lemma search_single_token:
  assumes "w \<noteq> []" and "is_word_char (hd w)" and "is_word_char (last w)"
  shows "search_from [w] None s \<longleftrightarrow> has_token w s"
proof -
  have f: "is_word (first_char w)"
    using assms by (cases w) auto
  have "\<And>pre. (if pre = [] then None else last_char pre) = last_char pre"
    by simp
  then show ?thesis
    using assms f by (simp add: search_from_iff has_token_def boundary_def)
qed

lemma re_gzip_iff: "re_gzip s \<longleftrightarrow> has_token ''gzip'' s"
  unfolding re_gzip_def by (rule search_single_token) (simp_all add: is_word_char_def)

lemma re_deflate_iff: "re_deflate s \<longleftrightarrow> has_token ''deflate'' s"
  unfolding re_deflate_def by (rule search_single_token) (simp_all add: is_word_char_def)

lemma search_from_union:
  "search_from [v, w] prev s \<longleftrightarrow> search_from [v] prev s \<or> search_from [w] prev s"
  by (induction s arbitrary: prev) auto

lemma re_gzip_or_deflate_iff:
  "re_gzip_or_deflate s \<longleftrightarrow> has_token ''gzip'' s \<or> has_token ''deflate'' s"
  using search_from_union [of "''gzip''" "''deflate''" None s] re_gzip_iff [of s] re_deflate_iff [of s]
  by (simp add: re_gzip_or_deflate_def re_gzip_def re_deflate_def)

lemma no_token_in_empty: "\<not> has_token ''gzip'' [] \<and> \<not> has_token ''deflate'' []"
  by (simp add: has_token_def)

text \<open>
  Claim C7. For every Accept-Encoding value handed to \<open>compressHandler\<close>: where the
  header is absent or holds neither a gzip nor a deflate token, the stream is returned
  unchanged and the response keeps its headers; where it holds a gzip token (deflate
  or not), Content-Encoding is set to gzip and the stream is piped through gzip; where
  it holds a deflate token only, Content-Encoding is set to deflate and the stream is
  piped through deflate. In particular the function never falls off its last branch.
\<close>

theorem compressHandler_negotiation:
  "compressHandler readStream req res =
     (case req_headers req ''accept-encoding'' of
        None \<Rightarrow> (Some readStream, res)
      | Some acceptEncoding \<Rightarrow>
          if has_token ''gzip'' acceptEncoding
            then (Some (Gzip readStream),
                  res\<lparr>res_headers := (res_headers res)(''content-encoding'' \<mapsto> ''gzip'')\<rparr>)
          else if has_token ''deflate'' acceptEncoding
            then (Some (Deflate readStream),
                  res\<lparr>res_headers := (res_headers res)(''content-encoding'' \<mapsto> ''deflate'')\<rparr>)
          else (Some readStream, res))"
proof (cases "req_headers req ''accept-encoding''")
  case None
  then show ?thesis by (simp add: compressHandler_def)
next
  case (Some ae)
  show ?thesis
  proof (cases "ae = []")
    case True
    with Some show ?thesis
      using no_token_in_empty by (simp add: compressHandler_def)
  next
    case False
    with Some show ?thesis
      by (simp add: compressHandler_def re_gzip_or_deflate_iff re_gzip_iff re_deflate_iff
          setHeader_known)
  qed
qed

theorem compressHandler_negotiation_witness:
  "compressHandler (ReadStream ''/f'' None) (get ''/f'' [(''accept-encoding'', ''gzip, deflate'')]) new_response
     = (Some (Gzip (ReadStream ''/f'' None)),
        \<lparr>statusCode = 200, res_headers = [''content-encoding'' \<mapsto> ''gzip''], res_body = None\<rparr>)
   \<and> compressHandler (ReadStream ''/f'' None) (get ''/f'' [(''accept-encoding'', ''deflate'')]) new_response
     = (Some (Deflate (ReadStream ''/f'' None)),
        \<lparr>statusCode = 200, res_headers = [''content-encoding'' \<mapsto> ''deflate''], res_body = None\<rparr>)
   \<and> compressHandler (ReadStream ''/f'' None) (get ''/f'' [(''accept-encoding'', ''br, xgzip'')]) new_response
     = (Some (ReadStream ''/f'' None), new_response)
   \<and> compressHandler (ReadStream ''/f'' None) (get ''/f'' []) new_response
     = (Some (ReadStream ''/f'' None), new_response)"
  using compressHandler_negotiation [of "ReadStream ''/f'' None" "get ''/f'' [(''accept-encoding'', ''gzip, deflate'')]" new_response]
    compressHandler_negotiation [of "ReadStream ''/f'' None" "get ''/f'' [(''accept-encoding'', ''deflate'')]" new_response]
    compressHandler_negotiation [of "ReadStream ''/f'' None" "get ''/f'' [(''accept-encoding'', ''br, xgzip'')]" new_response]
    compressHandler_negotiation [of "ReadStream ''/f'' None" "get ''/f'' []" new_response]
  by (simp add: get_def new_response_def re_gzip_iff [symmetric] re_deflate_iff [symmetric]
      re_gzip_def re_deflate_def word_at_def boundary_def is_word_char_def)


text \<open>
  Whatever the request asks for, \<open>compressHandler\<close> hands back the stream itself or
  the stream behind one zlib transform, and touches neither the status, the body nor
  the Content-Range header.
\<close>

lemma compressHandler_cases:
  "\<exists>z r'. compressHandler s req r = (Some z, r')
      \<and> (z = s \<or> z = Gzip s \<or> z = Deflate s)
      \<and> statusCode r' = statusCode r \<and> res_body r' = res_body r
      \<and> res_headers r' ''content-range'' = res_headers r ''content-range''"
proof (cases "req_headers req ''accept-encoding''")
  case None
  then show ?thesis by (simp add: compressHandler_def)
next
  case (Some ae)
  then show ?thesis
    by (simp add: compressHandler_def re_gzip_or_deflate_iff re_gzip_iff re_deflate_iff
        setHeader_known)
qed


section \<open>Range requests\<close>

subsection \<open>Opening the stream\<close>

lemma createReadStream_inside:
  "a \<le> b \<Longrightarrow> int b < 2 ^ 53
     \<Longrightarrow> createReadStream p (Num (int a)) (Num (int b)) = Inr (ReadStream p (Some (a, Some b)))"
  by (simp add: createReadStream_def max_safe_def)

text \<open>A range inside the file is answered 206 and its stream is opened.\<close>

lemma rangeHandler_inside:
  assumes "getRange rangeText S = Inr \<lparr>range_start = Num (int a), range_end = Num (int b)\<rparr>"
    and "a \<le> b" and "b < S" and "int S \<le> 2 ^ 53"
  shows "rangeHandler e pathName rangeText S res =
           Inr (Some (ReadStream pathName (Some (a, Some b))),
                res\<lparr>statusCode := 206,
                    res_headers := (res_headers res)(''content-range'' \<mapsto>
                      ''bytes '' @ dec_digits a @ ''-'' @ dec_digits b @ ''/'' @ dec_digits S)\<rparr>)"
proof -
  have b: "int b < 2 ^ 53" "int b \<le> 2 ^ 53" "int a \<le> 2 ^ 53"
    using assms(2-4) by simp_all
  show ?thesis
    unfolding rangeHandler_def assms(1)
    using assms(2-4) b
    by (simp add: createReadStream_inside js_toString_exact setHeader_known Let_def
        del: js_toString.simps)
qed

lemma span_inside:
  "a \<le> b \<Longrightarrow> b < length (content p)
     \<Longrightarrow> carries_span (content p) a b (file_bytes content (ReadStream p (Some (a, Some b))))
         \<and> carries_span (content p) a b (file_bytes content (Gzip (ReadStream p (Some (a, Some b)))))
         \<and> carries_span (content p) a b (file_bytes content (Deflate (ReadStream p (Some (a, Some b)))))"
  by (simp add: carries_span_def)

text \<open>
  Once \<open>rangeHandler\<close> has opened a stream, \<open>responseFile\<close> pipes it into the
  response, directly or behind one zlib transform, and keeps status and Content-Range.
\<close>

lemma responseFile_ranged:
  assumes "rangeHandler e pathName rangeText (st_size stat)
             (res\<lparr>res_headers := (res_headers res)(''content-type'' \<mapsto> mime_lookup e pathName,
                                                   ''accept-ranges'' \<mapsto> ''bytes'')\<rparr>)
           = Inr (Some s, r3)"
    and "req_headers req ''range'' = Some rangeText" and "rangeText \<noteq> []"
  shows "\<exists>z r'. responseFile this e stat pathName req res = Inr r'
           \<and> statusCode r' = statusCode r3
           \<and> res_headers r' ''content-range'' = res_headers r3 ''content-range''
           \<and> res_body r' = Some (Piped z)
           \<and> (z = s \<or> z = Gzip s \<or> z = Deflate s)"
proof -
  obtain z r4 where z: "compressHandler s req r3 = (Some z, r4)"
    "z = s \<or> z = Gzip s \<or> z = Deflate s" "statusCode r4 = statusCode r3"
    "res_headers r4 ''content-range'' = res_headers r3 ''content-range''"
    using compressHandler_cases [of s req r3] by blast
  show ?thesis
  proof (cases "shouldCompress this e pathName")
    case True
    then have "responseFile this e stat pathName req res = Inr (pipe z r4)"
      using assms z(1) by (simp add: responseFile_def Let_def setHeader_known)
    then show ?thesis
      using z by (simp add: pipe_def)
  next
    case False
    then have "responseFile this e stat pathName req res = Inr (pipe s r3)"
      using assms by (simp add: responseFile_def Let_def setHeader_known)
    then show ?thesis
      by (simp add: pipe_def)
  qed
qed

subsection \<open>Suffix and open-ended ranges\<close>

text \<open>
  Claim C5, as amended. For a Range header \<open>bytes=-N\<close> against a resource of \<open>S\<close>
  bytes, where \<open>N\<close> and \<open>S\<close> are at most \<open>2^53\<close>, \<open>getRange\<close> produces
  \<open>start = S - N\<close> and \<open>end = S - 1\<close>; for \<open>bytes=N-\<close> it produces \<open>start = N\<close> and
  \<open>end = S - 1\<close>. The number is written in decimal, with any count \<open>k\<close> of zeros in
  front. For \<open>0 < N \<le> S\<close> the suffix range is served: \<open>rangeHandler\<close> answers 206
  with \<open>Content-Range: bytes (S-N)-(S-1)/S\<close>, and the stream it opens carries the
  last \<open>N\<close> bytes of the file.
\<close>

theorem getRange_suffix_and_open_end:
  assumes "int N \<le> 2 ^ 53" and "int S \<le> 2 ^ 53"
  shows "getRange (''bytes=-'' @ replicate k CHR ''0'' @ dec_digits N) S
           = Inr \<lparr>range_start = Num (int S - int N), range_end = Num (int S - 1)\<rparr>
         \<and> getRange (''bytes='' @ replicate k CHR ''0'' @ dec_digits N @ ''-'') S
           = Inr \<lparr>range_start = Num (int N), range_end = Num (int S - 1)\<rparr>
         \<and> (0 < N \<and> N \<le> S \<and> length (fs_bytes e pathName) = S \<longrightarrow>
              rangeHandler e pathName (''bytes=-'' @ replicate k CHR ''0'' @ dec_digits N) S res
                = Inr (Some (ReadStream pathName (Some (S - N, Some (S - 1)))),
                       res\<lparr>statusCode := 206,
                           res_headers := (res_headers res)(''content-range'' \<mapsto>
                             ''bytes '' @ dec_digits (S - N) @ ''-'' @ dec_digits (S - 1)
                             @ ''/'' @ dec_digits S)\<rparr>)
              \<and> file_bytes (fs_bytes e) (ReadStream pathName (Some (S - N, Some (S - 1))))
                  = drop (S - N) (fs_bytes e pathName)
              \<and> length (drop (S - N) (fs_bytes e pathName)) = N)"
proof -
  let ?ds = "replicate k CHR ''0'' @ dec_digits N"
  have digits: "list_all is_digit ?ds"
    by (rule zeros_are_digits)
  have n: "parseInt ?ds = Num (int N)"
    using assms(1) by (rule parseInt_decimal)
  have sub: "js_sub (Num (int S)) (Num (int N)) = Num (int S - int N)"
    "js_sub (Num (int S)) (Num 1) = Num (int S - 1)"
    using assms by (simp_all add: js_number_exact)
  have "match_range (''bytes=-'' @ ?ds) = Some ([], ?ds)"
    using match_range_at_suffix [of ?ds] digits by (simp add: takeWhile_all)
  then have suffix: "getRange (''bytes=-'' @ ?ds) S
           = Inr \<lparr>range_start = Num (int S - int N), range_end = Num (int S - 1)\<rparr>"
    by (simp add: getRange_def n sub parseInt_empty del: js_sub.simps)
  have "match_range (''bytes='' @ ?ds @ ''-'') = Some (?ds, [])"
    using match_range_at_open [OF digits, of "[]"] by simp
  then have opened: "getRange (''bytes='' @ ?ds @ ''-'') S
           = Inr \<lparr>range_start = Num (int N), range_end = Num (int S - 1)\<rparr>"
    by (simp add: getRange_def n sub parseInt_empty del: js_sub.simps)
  have served: "rangeHandler e pathName (''bytes=-'' @ ?ds) S res
                = Inr (Some (ReadStream pathName (Some (S - N, Some (S - 1)))),
                       res\<lparr>statusCode := 206,
                           res_headers := (res_headers res)(''content-range'' \<mapsto>
                             ''bytes '' @ dec_digits (S - N) @ ''-'' @ dec_digits (S - 1)
                             @ ''/'' @ dec_digits S)\<rparr>)
              \<and> file_bytes (fs_bytes e) (ReadStream pathName (Some (S - N, Some (S - 1))))
                  = drop (S - N) (fs_bytes e pathName)
              \<and> length (drop (S - N) (fs_bytes e pathName)) = N"
    if h: "0 < N \<and> N \<le> S \<and> length (fs_bytes e pathName) = S"
  proof -
    have i: "int S - int N = int (S - N)" "int S - 1 = int (S - 1)"
      using h by (simp_all add: of_nat_diff)
    have "getRange (''bytes=-'' @ ?ds) S
           = Inr \<lparr>range_start = Num (int (S - N)), range_end = Num (int (S - 1))\<rparr>"
      using suffix unfolding i .
    then have "rangeHandler e pathName (''bytes=-'' @ ?ds) S res
                = Inr (Some (ReadStream pathName (Some (S - N, Some (S - 1)))),
                       res\<lparr>statusCode := 206,
                           res_headers := (res_headers res)(''content-range'' \<mapsto>
                             ''bytes '' @ dec_digits (S - N) @ ''-'' @ dec_digits (S - 1)
                             @ ''/'' @ dec_digits S)\<rparr>)"
      using h assms(2) by (intro rangeHandler_inside) auto
    moreover have "Suc (S - 1) - (S - N) = N"
      using h by simp
    ultimately show ?thesis
      using h by simp
  qed
  show ?thesis
    using suffix opened served by (intro conjI impI) simp_all
qed

theorem getRange_suffix_and_open_end_witness:
  "getRange ''bytes=-02'' 3 = Inr \<lparr>range_start = Num 1, range_end = Num 2\<rparr>
   \<and> getRange ''bytes=02-'' 3 = Inr \<lparr>range_start = Num 2, range_end = Num 2\<rparr>
   \<and> rangeHandler sample_env ''/srv/www/a.png'' ''bytes=-02'' 3 new_response
       = Inr (Some (ReadStream ''/srv/www/a.png'' (Some (1, Some 2))),
              \<lparr>statusCode = 206, res_headers = [''content-range'' \<mapsto> ''bytes 1-2/3''],
               res_body = None\<rparr>)
   \<and> file_bytes (fs_bytes sample_env) (ReadStream ''/srv/www/a.png'' (Some (1, Some 2))) = ''bc''"
  using getRange_suffix_and_open_end [of 2 3 1 sample_env "''/srv/www/a.png''" new_response]
  by (simp add: sample_content new_response_def dec_digits.simps digit_char_def)

text \<open>
  The claim as first worded fails beyond \<open>2^53\<close>, where \<open>parseInt\<close> rounds to the
  nearest double: for \<open>bytes=-9007199254740993\<close> against 3 bytes the start is
  \<open>-9007199254740989\<close> and not \<open>3 - 9007199254740993\<close>. And a suffix range is not
  always served: \<open>bytes=-0\<close> is answered 416, and for \<open>bytes=-5\<close> against 3 bytes
  opening the stream raises a RangeError.
\<close>

theorem suffix_beyond_double_counterexample:
  "getRange ''bytes=-9007199254740993'' 3
     = Inr \<lparr>range_start = Num (- 9007199254740989), range_end = Num 2\<rparr>
   \<and> getRange ''bytes=-9007199254740993'' 3
     \<noteq> Inr \<lparr>range_start = Num (3 - 9007199254740993), range_end = Num 2\<rparr>
   \<and> rangeHandler sample_env ''/srv/www/a.png'' ''bytes=-0'' 3 new_response
     = Inr (None, \<lparr>statusCode = 416, res_headers = [''content-range'' \<mapsto> ''bytes */3''],
                  res_body = Some NoBody\<rparr>)
   \<and> rangeHandler sample_env ''/srv/www/a.png'' ''bytes=-5'' 3 new_response
     = Inl (RangeError ''start'')"
proof -
  have v: "dec_value ''9007199254740993'' = 9007199254740993"
    by (simp add: dec_value_def digit_val_def)
  have "parseInt ''9007199254740993'' = Num 9007199254740992"
    by (simp add: parseInt_def is_digit_def v js_number_ties_to_even
        del: dec_value_def)
  then have a: "getRange ''bytes=-9007199254740993'' 3
     = Inr \<lparr>range_start = Num (- 9007199254740989), range_end = Num 2\<rparr>"
    by (simp add: getRange_def match_range_at_def is_digit_def parseInt_empty js_number_exact)
  have b: "rangeHandler sample_env ''/srv/www/a.png'' ''bytes=-0'' 3 new_response
     = Inr (None, \<lparr>statusCode = 416, res_headers = [''content-range'' \<mapsto> ''bytes */3''],
                  res_body = Some NoBody\<rparr>)"
    by (simp add: rangeHandler_def sample_getRange setHeader_known end_response_def
        new_response_def sample_env_sel sample_number_text_def int_toString10_def
        dec_digits.simps digit_char_def)
  have c: "rangeHandler sample_env ''/srv/www/a.png'' ''bytes=-5'' 3 new_response
     = Inl (RangeError ''start'')"
    by (simp add: rangeHandler_def sample_getRange createReadStream_def Let_def)
  show ?thesis
    using a b c by simp
qed

subsection \<open>416 or 206\<close>

text \<open>
  Claim C2, as amended. For every range \<open>r\<close> that \<open>getRange\<close> parses and every total
  size \<open>S\<close>: exactly when \<open>start > S\<close> or \<open>end > S\<close> or \<open>start > end\<close> (JavaScript's
  comparisons, false on \<open>NaN\<close>), \<open>rangeHandler\<close> sets status 416 and the header
  \<open>Content-Range: bytes */S\<close>, ends the response with no body and returns no stream,
  and \<open>responseFile\<close> leaves that response as it is. Otherwise \<open>rangeHandler\<close> sets
  status 206 and \<open>Content-Range: bytes start-end/S\<close> and opens the read stream of
  \<open>pathName\<close> from \<open>start\<close> to \<open>end\<close>; the 206 response comes out where the stream
  opens. For \<open>0 \<le> start \<le> end < S\<close>, with \<open>S\<close> the length of the file and at most
  \<open>2^53\<close>, it opens: the answer is 206 with \<open>Content-Range: bytes start-end/S\<close> in
  decimal, the stream carries exactly the bytes from \<open>start\<close> to \<open>end\<close> inclusive,
  and \<open>responseFile\<close> pipes it into the response, directly or behind the gzip or
  deflate transform of claim C7.
\<close>

theorem rangeHandler_416_or_206:
  assumes "getRange rangeText S = Inr r"
  shows "(js_gt (range_start r) (Num (int S)) \<or> js_gt (range_end r) (Num (int S))
            \<or> js_gt (range_start r) (range_end r) \<longrightarrow>
            rangeHandler e pathName rangeText S res =
              Inr (None,
                   res\<lparr>statusCode := 416,
                       res_headers := (res_headers res)(''content-range'' \<mapsto>
                         ''bytes */'' @ js_toString (number_toString e) (Num (int S))),
                       res_body := Some NoBody\<rparr>)
            \<and> (st_size stat = S \<and> req_headers req ''range'' = Some rangeText \<and> rangeText \<noteq> [] \<longrightarrow>
                 responseFile this e stat pathName req res =
                   Inr (res\<lparr>statusCode := 416,
                         res_headers := (res_headers res)(
                           ''content-type'' \<mapsto> mime_lookup e pathName,
                           ''accept-ranges'' \<mapsto> ''bytes'',
                           ''content-range'' \<mapsto>
                             ''bytes */'' @ js_toString (number_toString e) (Num (int S))),
                         res_body := Some NoBody\<rparr>)))
         \<and> (\<not> (js_gt (range_start r) (Num (int S)) \<or> js_gt (range_end r) (Num (int S))
                \<or> js_gt (range_start r) (range_end r)) \<longrightarrow>
            rangeHandler e pathName rangeText S res =
              (case createReadStream pathName (range_start r) (range_end r) of
                 Inl err \<Rightarrow> Inl err
               | Inr readStream \<Rightarrow>
                   Inr (Some readStream,
                        res\<lparr>statusCode := 206,
                            res_headers := (res_headers res)(''content-range'' \<mapsto>
                              ''bytes '' @ js_toString (number_toString e) (range_start r) @ ''-''
                              @ js_toString (number_toString e) (range_end r) @ ''/''
                              @ js_toString (number_toString e) (Num (int S)))\<rparr>)))
         \<and> (\<forall>a b. range_start r = Num (int a) \<and> range_end r = Num (int b) \<and> a \<le> b \<and> b < S
                \<and> int S \<le> 2 ^ 53 \<and> length (fs_bytes e pathName) = S \<longrightarrow>
              rangeHandler e pathName rangeText S res =
                Inr (Some (ReadStream pathName (Some (a, Some b))),
                     res\<lparr>statusCode := 206,
                         res_headers := (res_headers res)(''content-range'' \<mapsto>
                           ''bytes '' @ dec_digits a @ ''-'' @ dec_digits b @ ''/'' @ dec_digits S)\<rparr>)
              \<and> carries_span (fs_bytes e pathName) a b
                  (file_bytes (fs_bytes e) (ReadStream pathName (Some (a, Some b))))
              \<and> (st_size stat = S \<and> req_headers req ''range'' = Some rangeText \<and> rangeText \<noteq> [] \<longrightarrow>
                   (\<exists>z r'. responseFile this e stat pathName req res = Inr r'
                      \<and> statusCode r' = 206
                      \<and> res_headers r' ''content-range''
                          = Some (''bytes '' @ dec_digits a @ ''-'' @ dec_digits b @ ''/'' @ dec_digits S)
                      \<and> res_body r' = Some (Piped z)
                      \<and> (z = ReadStream pathName (Some (a, Some b))
                           \<or> z = Gzip (ReadStream pathName (Some (a, Some b)))
                           \<or> z = Deflate (ReadStream pathName (Some (a, Some b))))
                      \<and> carries_span (fs_bytes e pathName) a b (file_bytes (fs_bytes e) z))))"
proof -
  let ?bad = "js_gt (range_start r) (Num (int S)) \<or> js_gt (range_end r) (Num (int S))
                \<or> js_gt (range_start r) (range_end r)"
  have bad: "rangeHandler e pathName rangeText S res0 =
              Inr (None,
                   res0\<lparr>statusCode := 416,
                       res_headers := (res_headers res0)(''content-range'' \<mapsto>
                         ''bytes */'' @ js_toString (number_toString e) (Num (int S))),
                       res_body := Some NoBody\<rparr>)" if ?bad for res0
    using assms that
    by (simp add: rangeHandler_def setHeader_known end_response_def del: js_toString.simps)
  have bad_file: "responseFile this e stat pathName req res =
                   Inr (res\<lparr>statusCode := 416,
                         res_headers := (res_headers res)(
                           ''content-type'' \<mapsto> mime_lookup e pathName,
                           ''accept-ranges'' \<mapsto> ''bytes'',
                           ''content-range'' \<mapsto>
                             ''bytes */'' @ js_toString (number_toString e) (Num (int S))),
                         res_body := Some NoBody\<rparr>)"
    if ?bad and "st_size stat = S \<and> req_headers req ''range'' = Some rangeText \<and> rangeText \<noteq> []"
    using that bad [OF that(1)]
    by (simp add: responseFile_def Let_def setHeader_known del: js_toString.simps)
  have good: "rangeHandler e pathName rangeText S res =
              (case createReadStream pathName (range_start r) (range_end r) of
                 Inl err \<Rightarrow> Inl err
               | Inr readStream \<Rightarrow>
                   Inr (Some readStream,
                        res\<lparr>statusCode := 206,
                            res_headers := (res_headers res)(''content-range'' \<mapsto>
                              ''bytes '' @ js_toString (number_toString e) (range_start r) @ ''-''
                              @ js_toString (number_toString e) (range_end r) @ ''/''
                              @ js_toString (number_toString e) (Num (int S)))\<rparr>))"
    if "\<not> ?bad"
    using assms that
    by (simp add: rangeHandler_def setHeader_known Let_def del: js_toString.simps
        split: sum.split)
  have inside: "rangeHandler e pathName rangeText S res =
                Inr (Some (ReadStream pathName (Some (a, Some b))),
                     res\<lparr>statusCode := 206,
                         res_headers := (res_headers res)(''content-range'' \<mapsto>
                           ''bytes '' @ dec_digits a @ ''-'' @ dec_digits b @ ''/'' @ dec_digits S)\<rparr>)
              \<and> carries_span (fs_bytes e pathName) a b
                  (file_bytes (fs_bytes e) (ReadStream pathName (Some (a, Some b))))
              \<and> (st_size stat = S \<and> req_headers req ''range'' = Some rangeText \<and> rangeText \<noteq> [] \<longrightarrow>
                   (\<exists>z r'. responseFile this e stat pathName req res = Inr r'
                      \<and> statusCode r' = 206
                      \<and> res_headers r' ''content-range''
                          = Some (''bytes '' @ dec_digits a @ ''-'' @ dec_digits b @ ''/'' @ dec_digits S)
                      \<and> res_body r' = Some (Piped z)
                      \<and> (z = ReadStream pathName (Some (a, Some b))
                           \<or> z = Gzip (ReadStream pathName (Some (a, Some b)))
                           \<or> z = Deflate (ReadStream pathName (Some (a, Some b))))
                      \<and> carries_span (fs_bytes e pathName) a b (file_bytes (fs_bytes e) z)))"
    if h: "range_start r = Num (int a) \<and> range_end r = Num (int b) \<and> a \<le> b \<and> b < S
                \<and> int S \<le> 2 ^ 53 \<and> length (fs_bytes e pathName) = S" for a b
  proof -
    have r: "r = \<lparr>range_start = Num (int a), range_end = Num (int b)\<rparr>"
      using h by (cases r) simp
    have g: "getRange rangeText S = Inr \<lparr>range_start = Num (int a), range_end = Num (int b)\<rparr>"
      using assms r by simp
    have ab: "a \<le> b" "b < S" "int S \<le> 2 ^ 53" "b < length (fs_bytes e pathName)"
      using h by simp_all
    note rh = rangeHandler_inside [OF g ab(1-3)]
    note span = span_inside [of a b "fs_bytes e" pathName, OF ab(1) ab(4)]
    have piped: "\<exists>z r'. responseFile this e stat pathName req res = Inr r'
                      \<and> statusCode r' = 206
                      \<and> res_headers r' ''content-range''
                          = Some (''bytes '' @ dec_digits a @ ''-'' @ dec_digits b @ ''/'' @ dec_digits S)
                      \<and> res_body r' = Some (Piped z)
                      \<and> (z = ReadStream pathName (Some (a, Some b))
                           \<or> z = Gzip (ReadStream pathName (Some (a, Some b)))
                           \<or> z = Deflate (ReadStream pathName (Some (a, Some b))))
                      \<and> carries_span (fs_bytes e pathName) a b (file_bytes (fs_bytes e) z)"
      if q: "st_size stat = S \<and> req_headers req ''range'' = Some rangeText \<and> rangeText \<noteq> []"
    proof -
      have o: "rangeHandler e pathName rangeText (st_size stat)
             (res\<lparr>res_headers := (res_headers res)(''content-type'' \<mapsto> mime_lookup e pathName,
                                                   ''accept-ranges'' \<mapsto> ''bytes'')\<rparr>)
           = Inr (Some (ReadStream pathName (Some (a, Some b))),
                res\<lparr>res_headers := (res_headers res)(''content-type'' \<mapsto> mime_lookup e pathName,
                                                   ''accept-ranges'' \<mapsto> ''bytes''),
                    statusCode := 206,
                    res_headers := (res_headers res)(''content-type'' \<mapsto> mime_lookup e pathName,
                                                   ''accept-ranges'' \<mapsto> ''bytes'',
                                                   ''content-range'' \<mapsto>
                      ''bytes '' @ dec_digits a @ ''-'' @ dec_digits b @ ''/'' @ dec_digits S)\<rparr>)"
        using rh [of e pathName "res\<lparr>res_headers := (res_headers res)(''content-type'' \<mapsto> mime_lookup e pathName,
                                                   ''accept-ranges'' \<mapsto> ''bytes'')\<rparr>"] q
        by simp
      obtain z r' where z: "responseFile this e stat pathName req res = Inr r'"
        "statusCode r' = 206"
        "res_headers r' ''content-range''
           = Some (''bytes '' @ dec_digits a @ ''-'' @ dec_digits b @ ''/'' @ dec_digits S)"
        "res_body r' = Some (Piped z)"
        "z = ReadStream pathName (Some (a, Some b))
           \<or> z = Gzip (ReadStream pathName (Some (a, Some b)))
           \<or> z = Deflate (ReadStream pathName (Some (a, Some b)))"
        using responseFile_ranged [OF o, of req this] q by auto
      have "carries_span (fs_bytes e pathName) a b (file_bytes (fs_bytes e) z)"
        using z(5) span by auto
      with z show ?thesis
        by (intro exI [of _ z] exI [of _ r'] conjI)
    qed
    show ?thesis
      using rh span piped by (intro conjI impI) simp_all
  qed
  show ?thesis
    apply (intro conjI)
    subgoal using bad [of res] bad_file by blast
    subgoal using good by blast
    subgoal using inside by blast
    done
qed

theorem rangeHandler_416_or_206_witness:
  "rangeHandler sample_env ''/srv/www/a.png'' ''bytes=4-'' 3 new_response =
     Inr (None,
          \<lparr>statusCode = 416, res_headers = [''content-range'' \<mapsto> ''bytes */3''], res_body = Some NoBody\<rparr>)
   \<and> seen ''content-range'' (responseFile sample_server sample_env (sample_file 3) ''/srv/www/a.png''
        (get ''/a.png'' [(''range'', ''bytes=4-'')]) new_response)
     = Inr (416, Some ''bytes */3'', Some NoBody)
   \<and> rangeHandler sample_env ''/srv/www/a.png'' ''bytes=1-2'' 3 new_response =
     Inr (Some (ReadStream ''/srv/www/a.png'' (Some (1, Some 2))),
          \<lparr>statusCode = 206, res_headers = [''content-range'' \<mapsto> ''bytes 1-2/3''], res_body = None\<rparr>)
   \<and> carries_span ''abc'' 1 2
        (file_bytes (fs_bytes sample_env) (ReadStream ''/srv/www/a.png'' (Some (1, Some 2))))
   \<and> (\<exists>z. seen ''content-range'' (responseFile sample_server sample_env (sample_file 3) ''/srv/www/a.png''
               (get ''/a.png'' [(''range'', ''bytes=1-2'')]) new_response)
            = Inr (206, Some ''bytes 1-2/3'', Some (Piped z))
          \<and> carries_span ''abc'' 1 2 (file_bytes (fs_bytes sample_env) z))"
proof -
  note bad = rangeHandler_416_or_206 [
      where e = sample_env and pathName = "''/srv/www/a.png''" and res = new_response
        and stat = "sample_file 3" and req = "get ''/a.png'' [(''range'', ''bytes=4-'')]"
        and this = sample_server, OF sample_getRange(7), THEN conjunct1]
  note ok = rangeHandler_416_or_206 [
      where e = sample_env and pathName = "''/srv/www/a.png''" and res = new_response
        and stat = "sample_file 3" and req = "get ''/a.png'' [(''range'', ''bytes=1-2'')]"
        and this = sample_server, OF sample_getRange(6), THEN conjunct2, THEN conjunct2,
      THEN spec, THEN spec, of 1 2]
  have three: "dec_digits 3 = ''3''" "dec_digits 2 = ''2''" "dec_digits (Suc 0) = ''1''"
    by (simp_all add: dec_digits.simps digit_char_def)
  have a: "rangeHandler sample_env ''/srv/www/a.png'' ''bytes=4-'' 3 new_response =
     Inr (None,
          \<lparr>statusCode = 416, res_headers = [''content-range'' \<mapsto> ''bytes */3''], res_body = Some NoBody\<rparr>)"
    using bad
    by (simp add: new_response_def sample_env_sel int_toString10_def three)
  have b: "seen ''content-range'' (responseFile sample_server sample_env (sample_file 3) ''/srv/www/a.png''
        (get ''/a.png'' [(''range'', ''bytes=4-'')]) new_response)
     = Inr (416, Some ''bytes */3'', Some NoBody)"
    using bad
    by (simp add: get_sel sample_file_def seen_def sample_env_sel int_toString10_def three)
  have c: "rangeHandler sample_env ''/srv/www/a.png'' ''bytes=1-2'' 3 new_response =
     Inr (Some (ReadStream ''/srv/www/a.png'' (Some (1, Some 2))),
          \<lparr>statusCode = 206, res_headers = [''content-range'' \<mapsto> ''bytes 1-2/3''], res_body = None\<rparr>)"
    using ok
    by (simp add: new_response_def sample_content three)
  have d: "carries_span ''abc'' 1 2
        (file_bytes (fs_bytes sample_env) (ReadStream ''/srv/www/a.png'' (Some (1, Some 2))))"
    using ok
    by (simp add: sample_content)
  have "\<exists>z r'. responseFile sample_server sample_env (sample_file 3) ''/srv/www/a.png''
               (get ''/a.png'' [(''range'', ''bytes=1-2'')]) new_response = Inr r'
            \<and> statusCode r' = 206
            \<and> res_headers r' ''content-range'' = Some ''bytes 1-2/3''
            \<and> res_body r' = Some (Piped z)
            \<and> carries_span ''abc'' 1 2 (file_bytes (fs_bytes sample_env) z)"
    using ok
    by (simp add: sample_content get_sel sample_file_def three) blast
  then have e: "\<exists>z. seen ''content-range'' (responseFile sample_server sample_env (sample_file 3) ''/srv/www/a.png''
               (get ''/a.png'' [(''range'', ''bytes=1-2'')]) new_response)
            = Inr (206, Some ''bytes 1-2/3'', Some (Piped z))
          \<and> carries_span ''abc'' 1 2 (file_bytes (fs_bytes sample_env) z)"
    by (auto simp: seen_def)
  show ?thesis
    by (intro conjI a b c d e)
qed

text \<open>
  The claim as first worded fails where the range passes the three comparisons and
  does not lie inside the file. For \<open>bytes=0-3\<close> against the 3-byte sample file
  the answer is 206 with \<open>Content-Range: bytes 0-3/3\<close>, and the stream carries the 3
  bytes there are, not the 4 bytes from 0 to 3. For \<open>bytes=-\<close>, that is \<open>NaN\<close> and
  \<open>NaN\<close>, opening the stream raises a RangeError and nothing is answered. And the
  stream of a request that accepts gzip reaches the response behind the gzip
  transform.
\<close>

theorem served_span_counterexample:
  "rangeHandler sample_env ''/srv/www/a.png'' ''bytes=0-3'' 3 new_response =
     Inr (Some (ReadStream ''/srv/www/a.png'' (Some (0, Some 3))),
          \<lparr>statusCode = 206, res_headers = [''content-range'' \<mapsto> ''bytes 0-3/3''], res_body = None\<rparr>)
   \<and> file_bytes (fs_bytes sample_env) (ReadStream ''/srv/www/a.png'' (Some (0, Some 3))) = ''abc''
   \<and> \<not> carries_span (fs_bytes sample_env ''/srv/www/a.png'') 0 3 ''abc''
   \<and> getRange ''bytes=-'' 3 = Inr \<lparr>range_start = NaN, range_end = NaN\<rparr>
   \<and> rangeHandler sample_env ''/srv/www/a.png'' ''bytes=-'' 3 new_response
     = Inl (RangeError ''start'')
   \<and> seen ''content-range'' (responseFile sample_server sample_env (sample_file 3) ''/srv/www/a.png''
        (get ''/a.png'' [(''range'', ''bytes=1-2''), (''accept-encoding'', ''gzip'')]) new_response)
     = Inr (206, Some ''bytes 1-2/3'',
            Some (Piped (Gzip (ReadStream ''/srv/www/a.png'' (Some (1, Some 2))))))"
proof -
  have n: "dec_digits 3 = ''3''" "dec_digits 2 = ''2''" "dec_digits (Suc 0) = ''1''"
    "dec_digits 0 = ''0''"
    by (simp_all add: dec_digits.simps digit_char_def)
  have a: "rangeHandler sample_env ''/srv/www/a.png'' ''bytes=0-3'' 3 new_response =
     Inr (Some (ReadStream ''/srv/www/a.png'' (Some (0, Some 3))),
          \<lparr>statusCode = 206, res_headers = [''content-range'' \<mapsto> ''bytes 0-3/3''], res_body = None\<rparr>)"
    by (simp add: rangeHandler_def sample_getRange createReadStream_def max_safe_def Let_def
        setHeader_known new_response_def int_toString10_def n)
  have b: "file_bytes (fs_bytes sample_env) (ReadStream ''/srv/www/a.png'' (Some (0, Some 3))) = ''abc''"
    by (simp add: sample_content)
  have c: "\<not> carries_span (fs_bytes sample_env ''/srv/www/a.png'') 0 3 ''abc''"
    by (simp add: carries_span_def sample_content)
  have d: "rangeHandler sample_env ''/srv/www/a.png'' ''bytes=-'' 3 new_response
     = Inl (RangeError ''start'')"
    by (simp add: rangeHandler_def sample_getRange createReadStream_def Let_def)
  have z: "re_gzip_or_deflate ''gzip''" "re_gzip ''gzip''"
    by (simp_all add: re_gzip_or_deflate_def re_gzip_def word_at_def boundary_def is_word_char_def)
  have r: "rangeHandler sample_env ''/srv/www/a.png'' ''bytes=1-2'' 3 res =
     Inr (Some (ReadStream ''/srv/www/a.png'' (Some (1, Some 2))),
          res\<lparr>statusCode := 206,
              res_headers := (res_headers res)(''content-range'' \<mapsto> ''bytes 1-2/3'')\<rparr>)" for res
    by (simp add: rangeHandler_def sample_getRange createReadStream_def max_safe_def Let_def
        setHeader_known int_toString10_def n)
  have e: "seen ''content-range'' (responseFile sample_server sample_env (sample_file 3) ''/srv/www/a.png''
        (get ''/a.png'' [(''range'', ''bytes=1-2''), (''accept-encoding'', ''gzip'')]) new_response)
     = Inr (206, Some ''bytes 1-2/3'',
            Some (Piped (Gzip (ReadStream ''/srv/www/a.png'' (Some (1, Some 2))))))"
    by (simp add: responseFile_def get_sel sample_file_def r shouldCompress_sample
        compressHandler_def z setHeader_known pipe_def seen_def Let_def)
  show ?thesis
    by (intro conjI a b c d e sample_getRange(1))
qed


section \<open>Freshness\<close>

lemma setFreshHeaders_status:
  "statusCode (setFreshHeaders this e stat res) = statusCode res"
  by (simp add: setFreshHeaders_def Let_def setHeader_def)

lemma setFreshHeaders_etag:
  "res_headers (setFreshHeaders this e stat new_response) ''etag'' = computed_etag this stat"
  by (simp add: setFreshHeaders_def Let_def setHeader_known computed_etag_def new_response_def)

lemma setFreshHeaders_lastModified:
  "res_headers (setFreshHeaders this e stat new_response) ''last-modified''
     = computed_lastModified this e stat"
  by (simp add: setFreshHeaders_def Let_def setHeader_known computed_lastModified_def new_response_def)

lemma isFresh_iff:
  "isFresh reqHeaders resHeaders
     \<longleftrightarrow> truthy_fresh reqHeaders (resHeaders ''etag'') (resHeaders ''last-modified'')"
  by (auto simp: isFresh_def truthy_fresh_def Let_def)

lemma compressHandler_status:
  "compressHandler s req r = (out, r') \<Longrightarrow> statusCode r' = statusCode r"
  by (auto simp: compressHandler_def setHeader_def split: option.splits if_splits)

lemma rangeHandler_status:
  "rangeHandler e p t S r = Inr (out, r') \<Longrightarrow> statusCode r' = 416 \<or> statusCode r' = 206"
  by (auto simp: rangeHandler_def setHeader_def end_response_def Let_def
      simp del: js_toString.simps split: sum.splits if_splits)

text \<open>\<open>responseFile\<close> leaves the status alone or sets 416 or 206.\<close>

lemma responseFile_status:
  assumes "responseFile this e stat p req r = Inr r'"
  shows "statusCode r' = statusCode r \<or> statusCode r' = 416 \<or> statusCode r' = 206"
proof (cases "truthy (req_headers req ''range'')")
  case False
  then have o: "(case req_headers req ''range'' of
               None \<Rightarrow> Inr (Some (ReadStream p None), setHeader ''Accept-Ranges'' ''bytes'' (setHeader ''Content-Type'' (mime_lookup e p) r))
             | Some rangeText \<Rightarrow>
                 if rangeText = [] then Inr (Some (ReadStream p None), setHeader ''Accept-Ranges'' ''bytes'' (setHeader ''Content-Type'' (mime_lookup e p) r))
                 else rangeHandler e p rangeText (st_size stat) (setHeader ''Accept-Ranges'' ''bytes'' (setHeader ''Content-Type'' (mime_lookup e p) r)))
      = Inr (Some (ReadStream p None), setHeader ''Accept-Ranges'' ''bytes'' (setHeader ''Content-Type'' (mime_lookup e p) r))"
    by (cases "req_headers req ''range''") auto
  show ?thesis
    using assms compressHandler_status
    unfolding responseFile_def Let_def o
    by (auto simp: pipe_def setHeader_def split: if_splits prod.splits option.splits)
next
  case True
  then obtain t where t: "req_headers req ''range'' = Some t" "t \<noteq> []"
    by (cases "req_headers req ''range''") auto
  show ?thesis
  proof (cases "rangeHandler e p t (st_size stat) (setHeader ''Accept-Ranges'' ''bytes'' (setHeader ''Content-Type'' (mime_lookup e p) r))")
    case (Inl a)
    with assms t show ?thesis
      by (simp add: responseFile_def Let_def)
  next
    case (Inr b)
    obtain out r3 where b: "b = (out, r3)" by (cases b)
    have s: "statusCode r3 = 416 \<or> statusCode r3 = 206"
      using Inr b rangeHandler_status by blast
    show ?thesis
      using assms t Inr b s compressHandler_status
      by (auto simp: responseFile_def Let_def pipe_def split: if_splits prod.splits option.splits)
  qed
qed

text \<open>
  Claim C1, as amended. For every request to an existing file, \<open>respond\<close> answers 304
  if and only if the request carries a non-empty If-None-Match or a non-empty
  If-Modified-Since and every non-empty one of the two equals the computed ETag,
  respectively Last-Modified, value; a conditional header with an empty value counts
  as absent. The 304 response has no body and carries the computed caching headers;
  every other request goes on to \<open>responseFile\<close> with those headers set.
\<close>

theorem respond_304_iff:
  assumes "fs_stat e pathName = Some stat"
  shows "((\<exists>r. respond this e pathName req new_response = Inr r \<and> statusCode r = 304)
            \<longleftrightarrow> truthy_fresh (req_headers req) (computed_etag this stat)
                  (computed_lastModified this e stat))
         \<and> (truthy_fresh (req_headers req) (computed_etag this stat) (computed_lastModified this e stat)
            \<longrightarrow> respond this e pathName req new_response
                  = Inr ((setFreshHeaders this e stat new_response)
                           \<lparr>statusCode := 304, res_body := Some NoBody\<rparr>))
         \<and> (\<not> truthy_fresh (req_headers req) (computed_etag this stat) (computed_lastModified this e stat)
            \<longrightarrow> respond this e pathName req new_response
                  = responseFile this e stat pathName req (setFreshHeaders this e stat new_response))"
proof -
  let ?r1 = "setFreshHeaders this e stat new_response"
  let ?fresh = "truthy_fresh (req_headers req) (computed_etag this stat)
                  (computed_lastModified this e stat)"
  have fresh: "isFresh (req_headers req) (res_headers ?r1) \<longleftrightarrow> ?fresh"
    by (simp add: isFresh_iff setFreshHeaders_etag setFreshHeaders_lastModified)
  have yes: "?fresh \<Longrightarrow> respond this e pathName req new_response
      = Inr (?r1\<lparr>statusCode := 304, res_body := Some NoBody\<rparr>)"
    using assms fresh by (simp add: respond_def responseNotModified_def end_response_def)
  have no: "\<not> ?fresh \<Longrightarrow> respond this e pathName req new_response
      = responseFile this e stat pathName req ?r1"
    using assms fresh by (simp add: respond_def)
  have never: "\<not> ?fresh \<Longrightarrow> respond this e pathName req new_response = Inr r \<Longrightarrow> statusCode r \<noteq> 304" for r
  proof -
    assume "\<not> ?fresh" and "respond this e pathName req new_response = Inr r"
    then have "responseFile this e stat pathName req ?r1 = Inr r"
      using no by simp
    then have "statusCode r = statusCode ?r1 \<or> statusCode r = 416 \<or> statusCode r = 206"
      by (rule responseFile_status)
    then show "statusCode r \<noteq> 304"
      by (auto simp: setFreshHeaders_status new_response_def)
  qed
  have iff: "(\<exists>r. respond this e pathName req new_response = Inr r \<and> statusCode r = 304) \<longleftrightarrow> ?fresh"
  proof
    assume "\<exists>r. respond this e pathName req new_response = Inr r \<and> statusCode r = 304"
    then obtain r where "respond this e pathName req new_response = Inr r" "statusCode r = 304"
      by blast
    then show ?fresh
      using never by blast
  next
    assume ?fresh
    then show "\<exists>r. respond this e pathName req new_response = Inr r \<and> statusCode r = 304"
      using yes by simp
  qed
  show ?thesis
    using iff yes no by blast
qed

theorem respond_304_iff_witness:
  "truthy_fresh (req_headers (get ''/a.png'' [(''if-none-match'', ''W/'' @ [CHR 0x22] @ ''3-1000'' @ [CHR 0x22])]))
     (computed_etag sample_server (sample_file 3))
     (computed_lastModified sample_server sample_env (sample_file 3))
   \<and> seen ''etag'' (respond sample_server sample_env ''/srv/www/a.png''
        (get ''/a.png'' [(''if-none-match'', ''W/'' @ [CHR 0x22] @ ''3-1000'' @ [CHR 0x22])]) new_response)
       = Inr (304, Some (''W/'' @ [CHR 0x22] @ ''3-1000'' @ [CHR 0x22]), Some NoBody)
   \<and> \<not> truthy_fresh (req_headers (get ''/a.png'' [])) (computed_etag sample_server (sample_file 3))
     (computed_lastModified sample_server sample_env (sample_file 3))
   \<and> respond sample_server sample_env ''/srv/www/a.png'' (get ''/a.png'' []) new_response
       = responseFile sample_server sample_env (sample_file 3) ''/srv/www/a.png'' (get ''/a.png'' [])
           (setFreshHeaders sample_server sample_env (sample_file 3) new_response)"
proof -
  have tag: "computed_etag sample_server (sample_file 3) = Some (''W/'' @ [CHR 0x22] @ ''3-1000'' @ [CHR 0x22])"
    by (simp add: computed_etag_def sample_flags sample_etag)
  show ?thesis
    using respond_304_iff [OF sample_stat(2), of sample_server "get ''/a.png'' [(''if-none-match'', ''W/'' @ [CHR 0x22] @ ''3-1000'' @ [CHR 0x22])]"]
      respond_304_iff [OF sample_stat(2), of sample_server "get ''/a.png'' []"]
    by (simp add: tag truthy_fresh_def get_def seen_def setFreshHeaders_etag)
qed

text \<open>
  The claim as first worded fails on a request whose If-None-Match is present but
  empty and whose If-Modified-Since equals Last-Modified: the ETag condition is
  present and unequal, and the answer is 304 all the same.
\<close>

theorem carried_fresh_counterexample:
  "seen ''etag'' (handle sample_server sample_env
      (get ''/a.png'' [(''if-none-match'', []),
                       (''if-modified-since'', ''Thu, 01 Jan 1970 00:00:04 GMT'')]))
     = Inr (304, Some (''W/'' @ [CHR 0x22] @ ''3-1000'' @ [CHR 0x22]), Some NoBody)
   \<and> \<not> carried_fresh
        (req_headers (get ''/a.png'' [(''if-none-match'', []),
                       (''if-modified-since'', ''Thu, 01 Jan 1970 00:00:04 GMT'')]))
        (computed_etag sample_server (sample_file 3))
        (computed_lastModified sample_server sample_env (sample_file 3))"
proof -
  have "handle sample_server sample_env
      (get ''/a.png'' [(''if-none-match'', []),
                       (''if-modified-since'', ''Thu, 01 Jan 1970 00:00:04 GMT'')])
     = Inr ((setFreshHeaders sample_server sample_env (sample_file 3) new_response)
              \<lparr>statusCode := 304, res_body := Some NoBody\<rparr>)"
    by (simp add: handle_def routeHandler_def sample_resolve sample_stat sample_kinds get_def
        sample_pathnames hasTrailingSlash_simps respond_def isFresh_def setFreshHeaders_etag setFreshHeaders_lastModified
        computed_etag_def computed_lastModified_def sample_flags sample_lastModified sample_etag
        responseNotModified_def end_response_def)
  then show ?thesis
    by (simp add: seen_def setFreshHeaders_etag computed_etag_def sample_flags sample_etag
        carried_fresh_def get_def)
qed


section \<open>Routing\<close>

text \<open>
  How \<open>routeHandler\<close> sorts the resolved path. Where \<open>fs.stat\<close> fails it answers 404
  with a page naming the request URL. Where the path exists and the request URL has a
  pathname: a directory whose URL path has no trailing slash is answered 301 with
  Location the request URL followed by a slash; a directory whose URL path ends in a
  slash is handed to \<open>respondDirectory\<close>, which serves the index page through
  \<open>respond\<close> if that file exists and otherwise answers 200 with the listing built from
  the directory's entries; a file is handed to \<open>respond\<close>, the freshness and range
  pipeline. Where the path exists and the request URL has no pathname, the TypeError
  of \<open>hasTrailingSlash\<close> comes out.
\<close>

lemma routeHandler_sorts:
  "(fs_stat e pathName = None \<longrightarrow>
      routeHandler this e pathName req res =
        Inr (res\<lparr>statusCode := 404,
                 res_headers := (res_headers res)(''content-type'' \<mapsto> ''text/html''),
                 res_body := Some (Html (''<h1>Not Found</h1><p>The requested URL '' @ req_url req
                                          @ '' was not found on this server.</p>''))\<rparr>))
   \<and> (\<forall>stat requestedPath.
        fs_stat e pathName = Some stat \<and> url_pathname e (req_url req) = Some requestedPath \<longrightarrow>
        (st_isDirectory stat \<and> hasTrailingSlash (Some requestedPath) = Inr False \<longrightarrow>
           routeHandler this e pathName req res =
              Inr (res\<lparr>statusCode := 301,
                       res_headers := (res_headers res)(''location'' \<mapsto> req_url req @ ''/'',
                                                        ''content-type'' \<mapsto> ''text/html''),
                       res_body := Some (Html (''Redirecting to <a href='' @ [CHR 0x27]
                                                @ req_url req @ ''/'' @ [CHR 0x27] @ ''>''
                                                @ req_url req @ ''/'' @ ''</a>''))\<rparr>))
        \<and> (st_isDirectory stat \<and> hasTrailingSlash (Some requestedPath) = Inr True \<longrightarrow>
             routeHandler this e pathName req res = respondDirectory this e pathName req res)
        \<and> (\<not> st_isDirectory stat \<longrightarrow>
             routeHandler this e pathName req res = respond this e pathName req res))
   \<and> (\<forall>stat. fs_stat e pathName = Some stat \<and> url_pathname e (req_url req) = None \<longrightarrow>
        routeHandler this e pathName req res
          = Inl (TypeError ''Cannot read property length of null''))
   \<and> (fs_existsSync e (path_join pathName (indexPage this)) \<longrightarrow>
        respondDirectory this e pathName req res =
          respond this e (path_join pathName (indexPage this)) req res)
   \<and> (\<not> fs_existsSync e (path_join pathName (indexPage this)) \<longrightarrow>
        (\<forall>files content.
           fs_readdir e pathName = Inr files \<longrightarrow>
           listing e pathName (url_pathname e (req_url req)) files
             (''<h1>Index of '' @ pathname_text (url_pathname e (req_url req)) @ ''</h1>'')
             = Inr content \<longrightarrow>
           respondDirectory this e pathName req res =
             Inr (res\<lparr>statusCode := 200,
                      res_headers := (res_headers res)(''content-type'' \<mapsto> ''text/html''),
                      res_body := Some (Html content)\<rparr>)))"
proof (intro conjI allI impI)
  assume "fs_stat e pathName = None"
  then show "routeHandler this e pathName req res =
        Inr (res\<lparr>statusCode := 404,
                 res_headers := (res_headers res)(''content-type'' \<mapsto> ''text/html''),
                 res_body := Some (Html (''<h1>Not Found</h1><p>The requested URL '' @ req_url req
                                          @ '' was not found on this server.</p>''))\<rparr>)"
    by (simp add: routeHandler_def respondNotFound_def writeHead_def setHeader_known end_response_def)
next
  fix stat requestedPath
  assume "fs_stat e pathName = Some stat \<and> url_pathname e (req_url req) = Some requestedPath"
    and "st_isDirectory stat \<and> hasTrailingSlash (Some requestedPath) = Inr False"
  then show "routeHandler this e pathName req res =
              Inr (res\<lparr>statusCode := 301,
                       res_headers := (res_headers res)(''location'' \<mapsto> req_url req @ ''/'',
                                                        ''content-type'' \<mapsto> ''text/html''),
                       res_body := Some (Html (''Redirecting to <a href='' @ [CHR 0x27]
                                                @ req_url req @ ''/'' @ [CHR 0x27] @ ''>''
                                                @ req_url req @ ''/'' @ ''</a>''))\<rparr>)"
    by (simp add: routeHandler_def respondRedirect_def writeHead_def setHeader_known
        end_response_def Let_def)
next
  fix stat requestedPath
  assume "fs_stat e pathName = Some stat \<and> url_pathname e (req_url req) = Some requestedPath"
    and "st_isDirectory stat \<and> hasTrailingSlash (Some requestedPath) = Inr True"
  then show "routeHandler this e pathName req res = respondDirectory this e pathName req res"
    by (simp add: routeHandler_def)
next
  fix stat requestedPath
  assume "fs_stat e pathName = Some stat \<and> url_pathname e (req_url req) = Some requestedPath"
    and "\<not> st_isDirectory stat"
  then show "routeHandler this e pathName req res = respond this e pathName req res"
    by (cases "hasTrailingSlash (Some requestedPath)")
      (simp_all add: routeHandler_def hasTrailingSlash_def split: if_splits)
next
  fix stat
  assume "fs_stat e pathName = Some stat \<and> url_pathname e (req_url req) = None"
  then show "routeHandler this e pathName req res
          = Inl (TypeError ''Cannot read property length of null'')"
    by (simp add: routeHandler_def hasTrailingSlash_simps)
next
  assume "fs_existsSync e (path_join pathName (indexPage this))"
  then show "respondDirectory this e pathName req res =
          respond this e (path_join pathName (indexPage this)) req res"
    by (simp add: respondDirectory_def)
next
  fix files content
  assume "\<not> fs_existsSync e (path_join pathName (indexPage this))"
    and "fs_readdir e pathName = Inr files"
    and "listing e pathName (url_pathname e (req_url req)) files
             (''<h1>Index of '' @ pathname_text (url_pathname e (req_url req)) @ ''</h1>'')
             = Inr content"
  then show "respondDirectory this e pathName req res =
             Inr (res\<lparr>statusCode := 200,
                      res_headers := (res_headers res)(''content-type'' \<mapsto> ''text/html''),
                      res_body := Some (Html content)\<rparr>)"
    by (simp add: respondDirectory_def writeHead_def setHeader_known end_response_def)
qed

text \<open>The four outcomes on the sample tree.\<close>

lemma routeHandler_sorts_sample:
  "seen ''content-type'' (routeHandler sample_server sample_env ''/srv/www/nope'' (get ''/nope'' []) new_response)
     = Inr (404, Some ''text/html'',
            Some (Html ''<h1>Not Found</h1><p>The requested URL /nope was not found on this server.</p>''))
   \<and> seen ''location'' (routeHandler sample_server sample_env ''/srv/www/docs'' (get ''/docs'' []) new_response)
     = Inr (301, Some ''/docs/'',
            Some (Html (''Redirecting to <a href='' @ [CHR 0x27] @ ''/docs/'' @ [CHR 0x27] @ ''>/docs/</a>'')))
   \<and> routeHandler sample_server sample_env ''/srv/www/docs/'' (get ''/docs/'' []) new_response
     = respond sample_server sample_env ''/srv/www/docs/index.html'' (get ''/docs/'' []) new_response
   \<and> seen ''content-type'' (routeHandler sample_server sample_env ''/srv/www/pub/'' (get ''/pub/'' []) new_response)
     = Inr (200, Some ''text/html'',
            Some (Html (''<h1>Index of /pub/</h1><p><a href='' @ [CHR 0x27] @ ''/pub/x.txt'' @ [CHR 0x27]
            @ ''>x.txt</a></p><p><a href='' @ [CHR 0x27] @ ''/pub/sub/'' @ [CHR 0x27]
            @ ''>sub</a></p>'')))
   \<and> routeHandler sample_server sample_env ''/srv/www/a.png'' (get ''/a.png'' []) new_response
     = respond sample_server sample_env ''/srv/www/a.png'' (get ''/a.png'' []) new_response"
proof -
  note missing = routeHandler_sorts [THEN conjunct1, rule_format]
  note found = routeHandler_sorts [THEN conjunct2, THEN conjunct1, rule_format]
  note redirect = found [THEN conjunct1, rule_format]
  note directory = found [THEN conjunct2, THEN conjunct1, rule_format]
  note plain = found [THEN conjunct2, THEN conjunct2, rule_format]
  note idx = routeHandler_sorts [THEN conjunct2, THEN conjunct2, THEN conjunct2,
      THEN conjunct1, rule_format]
  note lst = routeHandler_sorts [THEN conjunct2, THEN conjunct2, THEN conjunct2,
      THEN conjunct2, rule_format]
  have a: "seen ''content-type'' (routeHandler sample_server sample_env ''/srv/www/nope'' (get ''/nope'' []) new_response)
     = Inr (404, Some ''text/html'',
            Some (Html ''<h1>Not Found</h1><p>The requested URL /nope was not found on this server.</p>''))"
    by (simp add: missing [OF sample_stat(1)] seen_def get_def)
  have docs: "fs_stat sample_env ''/srv/www/docs'' = Some sample_dir
      \<and> url_pathname sample_env (req_url (get ''/docs'' [])) = Some ''/docs''"
    by (simp add: sample_stat get_sel sample_pathnames)
  have dir_docs: "st_isDirectory sample_dir \<and> hasTrailingSlash (Some ''/docs'') = Inr False"
    by (simp add: sample_kinds hasTrailingSlash_def)
  have b: "seen ''location'' (routeHandler sample_server sample_env ''/srv/www/docs'' (get ''/docs'' []) new_response)
     = Inr (301, Some ''/docs/'',
            Some (Html (''Redirecting to <a href='' @ [CHR 0x27] @ ''/docs/'' @ [CHR 0x27] @ ''>/docs/</a>'')))"
    unfolding redirect [OF docs dir_docs]
    by (simp add: seen_def get_sel new_response_def)
  have docs_slash: "fs_stat sample_env ''/srv/www/docs/'' = Some sample_dir
      \<and> url_pathname sample_env (req_url (get ''/docs/'' [])) = Some ''/docs/''"
    by (simp add: sample_stat get_sel sample_pathnames)
  have dir_docs_slash: "st_isDirectory sample_dir \<and> hasTrailingSlash (Some ''/docs/'') = Inr True"
    by (simp add: sample_kinds hasTrailingSlash_def)
  have c: "routeHandler sample_server sample_env ''/srv/www/docs/'' (get ''/docs/'' []) new_response
     = respond sample_server sample_env ''/srv/www/docs/index.html'' (get ''/docs/'' []) new_response"
    unfolding directory [OF docs_slash dir_docs_slash]
    using idx [of sample_env "''/srv/www/docs/''" sample_server]
    by (simp add: sample_index sample_exists)
  have pub: "fs_stat sample_env ''/srv/www/pub/'' = Some sample_dir
      \<and> url_pathname sample_env (req_url (get ''/pub/'' [])) = Some ''/pub/''"
    by (simp add: sample_stat get_sel sample_pathnames)
  have dir_pub: "st_isDirectory sample_dir \<and> hasTrailingSlash (Some ''/pub/'') = Inr True"
    by (simp add: sample_kinds hasTrailingSlash_def)
  have no_index: "\<not> fs_existsSync sample_env (path_join ''/srv/www/pub/'' (indexPage sample_server))"
    by (simp add: sample_index sample_exists)
  have entries: "listing sample_env ''/srv/www/pub/'' (url_pathname sample_env (req_url (get ''/pub/'' [])))
      [''x.txt'', ''sub'']
      (''<h1>Index of '' @ pathname_text (url_pathname sample_env (req_url (get ''/pub/'' []))) @ ''</h1>'')
     = Inr (''<h1>Index of /pub/</h1><p><a href='' @ [CHR 0x27] @ ''/pub/x.txt'' @ [CHR 0x27]
            @ ''>x.txt</a></p><p><a href='' @ [CHR 0x27] @ ''/pub/sub/'' @ [CHR 0x27]
            @ ''>sub</a></p>'')"
    using sample_pub_listing(2) by (simp add: get_def sample_pathnames)
  have d: "seen ''content-type'' (routeHandler sample_server sample_env ''/srv/www/pub/'' (get ''/pub/'' []) new_response)
     = Inr (200, Some ''text/html'',
            Some (Html (''<h1>Index of /pub/</h1><p><a href='' @ [CHR 0x27] @ ''/pub/x.txt'' @ [CHR 0x27]
            @ ''>x.txt</a></p><p><a href='' @ [CHR 0x27] @ ''/pub/sub/'' @ [CHR 0x27]
            @ ''>sub</a></p>'')))"
    unfolding directory [OF pub dir_pub]
      lst [OF no_index sample_pub_listing(1) entries]
    by (simp add: seen_def new_response_def)
  have png: "fs_stat sample_env ''/srv/www/a.png'' = Some (sample_file 3)
      \<and> url_pathname sample_env (req_url (get ''/a.png'' [])) = Some ''/a.png''"
    by (simp add: sample_stat get_sel sample_pathnames)
  have e: "routeHandler sample_server sample_env ''/srv/www/a.png'' (get ''/a.png'' []) new_response
     = respond sample_server sample_env ''/srv/www/a.png'' (get ''/a.png'' []) new_response"
    by (rule plain [OF png]) (simp add: sample_kinds)
  show ?thesis
    by (intro conjI a b c d e)
qed


section \<open>Where the code departs from the specification\<close>

text \<open>
  Claim C3 (the code does otherwise). A Range header with both numbers omitted is not
  answered 416: \<open>bytes=-\<close> against the 3-byte sample file parses to \<open>NaN\<close> and
  \<open>NaN\<close>, no comparison with \<open>NaN\<close> holds, so the 416 branch is passed over, the
  status is set to 206 and \<open>fs.createReadStream\<close> is called with \<open>start = NaN\<close>: it
  raises a RangeError that nothing catches, and no response is written. A header the
  pattern does not match, \<open>items=0-1\<close>, makes \<open>getRange\<close> index \<open>null\<close>: the
  TypeError is not caught either and no response is written.
\<close>

theorem malformed_range_not_416:
  "getRange ''bytes=-'' 3 = Inr \<lparr>range_start = NaN, range_end = NaN\<rparr>
   \<and> handle sample_server sample_env (get ''/a.png'' [(''range'', ''bytes=-'')])
     = Inl (RangeError ''start'')
   \<and> handle sample_server sample_env (get ''/a.png'' [(''range'', ''items=0-1'')])
     = Inl (TypeError ''Cannot read property 1 of null'')"
proof (intro conjI)
  show "getRange ''bytes=-'' 3 = Inr \<lparr>range_start = NaN, range_end = NaN\<rparr>"
    by (rule sample_getRange(1))
  show "handle sample_server sample_env (get ''/a.png'' [(''range'', ''bytes=-'')])
     = Inl (RangeError ''start'')"
    by (simp add: handle_file respond_unconditional [OF sample_stat(2)] responseFile_def get_sel
        sample_file_def rangeHandler_def sample_getRange createReadStream_def Let_def)
  show "handle sample_server sample_env (get ''/a.png'' [(''range'', ''items=0-1'')])
     = Inl (TypeError ''Cannot read property 1 of null'')"
    by (simp add: handle_file respond_unconditional [OF sample_stat(2)] responseFile_def get_sel
        rangeHandler_def sample_getRange sample_file_def)
qed

text \<open>
  Claim C4 (the code does otherwise). A range that passes validation need not lie within
  \<open>[0, S - 1]\<close>. Against the 3-byte sample file \<open>bytes=0-3\<close> is accepted with
  \<open>end = 3 = S\<close> (the test is \<open>end > totalSize\<close>, one past the last offset) and served
  as 206 with \<open>Content-Range: bytes 0-3/3\<close> and a stream opened from 0 to 3. The
  suffix range \<open>bytes=-5\<close> is accepted with \<open>start = -2\<close> (nothing tests \<open>start\<close>
  against 0); the status is set to 206 and \<open>fs.createReadStream\<close> then raises a
  RangeError on the negative start, so that no response is written.
\<close>

theorem accepted_range_outside_file:
  "seen ''content-range'' (handle sample_server sample_env (get ''/a.png'' [(''range'', ''bytes=0-3'')]))
     = Inr (206, Some ''bytes 0-3/3'',
            Some (Piped (ReadStream ''/srv/www/a.png'' (Some (0, Some 3)))))
   \<and> getRange ''bytes=-5'' 3 = Inr \<lparr>range_start = Num (- 2), range_end = Num 2\<rparr>
   \<and> handle sample_server sample_env (get ''/a.png'' [(''range'', ''bytes=-5'')])
     = Inl (RangeError ''start'')"
proof (intro conjI)
  have n: "dec_digits 0 = ''0''"
    by (simp add: dec_digits.simps digit_char_def)
  show "seen ''content-range'' (handle sample_server sample_env (get ''/a.png'' [(''range'', ''bytes=0-3'')]))
     = Inr (206, Some ''bytes 0-3/3'',
            Some (Piped (ReadStream ''/srv/www/a.png'' (Some (0, Some 3)))))"
    by (simp add: handle_file respond_unconditional [OF sample_stat(2)] responseFile_def get_sel
        sample_file_def rangeHandler_def sample_getRange createReadStream_def max_safe_def Let_def
        shouldCompress_sample compressHandler_def
        setHeader_known pipe_def seen_def dec_digits_small setFreshHeaders_other int_toString10_def n)
  show "getRange ''bytes=-5'' 3 = Inr \<lparr>range_start = Num (- 2), range_end = Num 2\<rparr>"
    by (rule sample_getRange(3))
  show "handle sample_server sample_env (get ''/a.png'' [(''range'', ''bytes=-5'')])
     = Inl (RangeError ''start'')"
    by (simp add: handle_file respond_unconditional [OF sample_stat(2)] responseFile_def get_sel
        sample_file_def rangeHandler_def sample_getRange createReadStream_def Let_def)
qed

text \<open>
  Claim C6 (the code does otherwise). Not every request is sorted into one of the four
  outcomes. The request target \<open>a://x?/../../pub/\<close> resolves to the directory
  \<open>/srv/www/pub/\<close>, which exists, so \<open>fs.stat\<close> succeeds; \<open>url.parse\<close> finds no path
  in it and gives the pathname \<open>null\<close>; \<open>hasTrailingSlash\<close> reads \<open>url.length\<close> of
  \<open>null\<close> and throws a TypeError before \<open>stat.isDirectory()\<close> is looked at. The
  request is answered neither 404 nor 301 nor by the directory handling nor by the file
  pipeline, and the same happens for the file \<open>a://x?/../../a.png\<close>.
\<close>

theorem null_pathname_stops_router:
  "resolve sample_server ''a://x?/../../pub/'' = ''/srv/www/pub/''
   \<and> fs_stat sample_env ''/srv/www/pub/'' = Some sample_dir
   \<and> url_pathname sample_env ''a://x?/../../pub/'' = None
   \<and> handle sample_server sample_env (get ''a://x?/../../pub/'' [])
     = Inl (TypeError ''Cannot read property length of null'')
   \<and> resolve sample_server ''a://x?/../../a.png'' = ''/srv/www/a.png''
   \<and> fs_stat sample_env ''/srv/www/a.png'' = Some (sample_file 3)
   \<and> handle sample_server sample_env (get ''a://x?/../../a.png'' [])
     = Inl (TypeError ''Cannot read property length of null'')"
proof (intro conjI)
  show "resolve sample_server ''a://x?/../../pub/'' = ''/srv/www/pub/''"
    by (rule sample_resolve(3))
  show "fs_stat sample_env ''/srv/www/pub/'' = Some sample_dir"
    by (rule sample_stat(5))
  show "url_pathname sample_env ''a://x?/../../pub/'' = None"
    by (simp add: sample_pathnames)
  show "handle sample_server sample_env (get ''a://x?/../../pub/'' [])
     = Inl (TypeError ''Cannot read property length of null'')"
    by (simp add: handle_def routeHandler_def get_sel sample_resolve sample_stat
        sample_pathnames hasTrailingSlash_simps)
  show "resolve sample_server ''a://x?/../../a.png'' = ''/srv/www/a.png''"
    by (rule sample_resolve(4))
  show "fs_stat sample_env ''/srv/www/a.png'' = Some (sample_file 3)"
    by (rule sample_stat(2))
  show "handle sample_server sample_env (get ''a://x?/../../a.png'' [])
     = Inl (TypeError ''Cannot read property length of null'')"
    by (simp add: handle_def routeHandler_def get_sel sample_resolve sample_stat
        sample_pathnames hasTrailingSlash_simps)
qed

text \<open>
  Claim C8 (the code does otherwise). Compression is not limited to a configured set
  of extensions: the constructor never assigns \<open>zipMatch\<close>, \<open>shouldCompress\<close> matches
  the extension against \<open>undefined\<close> and so holds for every path. The sample file
  \<open>a.png\<close>, extension \<open>.png\<close>, requested with \<open>Accept-Encoding: gzip\<close>, is sent
  gzip-compressed with \<open>Content-Encoding: gzip\<close>.
\<close>

theorem png_is_compressed:
  "path_extname sample_env ''/srv/www/a.png'' = ''.png''
   \<and> shouldCompress sample_server sample_env ''/srv/www/a.png''
   \<and> seen ''content-encoding'' (handle sample_server sample_env (get ''/a.png'' [(''accept-encoding'', ''gzip'')]))
     = Inr (200, Some ''gzip'', Some (Piped (Gzip (ReadStream ''/srv/www/a.png'' None))))"
proof (intro conjI)
  show "path_extname sample_env ''/srv/www/a.png'' = ''.png''"
    by (simp add: sample_env_sel sample_extname_def)
  show "shouldCompress sample_server sample_env ''/srv/www/a.png''"
    by (rule shouldCompress_sample)
  have z: "re_gzip_or_deflate ''gzip''" "re_gzip ''gzip''"
    by (simp_all add: re_gzip_or_deflate_def re_gzip_def word_at_def boundary_def is_word_char_def)
  show "seen ''content-encoding'' (handle sample_server sample_env (get ''/a.png'' [(''accept-encoding'', ''gzip'')]))
     = Inr (200, Some ''gzip'', Some (Piped (Gzip (ReadStream ''/srv/www/a.png'' None))))"
    by (simp add: handle_file respond_unconditional [OF sample_stat(2)] responseFile_def get_sel
        shouldCompress_sample compressHandler_def z setHeader_known
        pipe_def seen_def setFreshHeaders_other)
qed

text \<open>
  Claim C9 (the code does otherwise). The resolved path can leave the root. A request
  target in absolute form, \<open>http://x/../../../etc/passwd\<close>, does not begin with a
  slash, so \<open>path.normalize\<close> treats it as a relative path and keeps the \<open>..\<close> that
  is left after \<open>http:\<close> and \<open>x\<close> are used up; joined under the root \<open>/srv/www\<close> it is
  \<open>/srv/etc/passwd\<close>, and the server streams that file.
\<close>

theorem absolute_form_url_escapes_root:
  "root sample_server = ''/srv/www''
   \<and> resolve sample_server ''http://x/../../../etc/passwd'' = ''/srv/etc/passwd''
   \<and> seen ''content-type'' (handle sample_server sample_env (get ''http://x/../../../etc/passwd'' []))
     = Inr (200, Some ''application/octet-stream'', Some (Piped (ReadStream ''/srv/etc/passwd'' None)))"
proof (intro conjI)
  show r: "root sample_server = ''/srv/www''"
    by (simp add: sample_server_def constructor_def)
  show p: "resolve sample_server ''http://x/../../../etc/passwd'' = ''/srv/etc/passwd''"
    by (simp add: resolve_def r path_join_def path_normalize_def)
  have "handle sample_server sample_env (get ''http://x/../../../etc/passwd'' [])
     = respond sample_server sample_env ''/srv/etc/passwd'' (get ''http://x/../../../etc/passwd'' [])
         new_response"
    by (simp add: handle_def routeHandler_def get_sel p sample_stat sample_kinds
        sample_pathnames hasTrailingSlash_simps)
  then show "seen ''content-type'' (handle sample_server sample_env (get ''http://x/../../../etc/passwd'' []))
     = Inr (200, Some ''application/octet-stream'', Some (Piped (ReadStream ''/srv/etc/passwd'' None)))"
    by (simp add: respond_unconditional [OF sample_stat(9)] responseFile_def get_sel
        shouldCompress_sample compressHandler_def setHeader_known pipe_def seen_def
        sample_env_sel setFreshHeaders_other)
qed

text \<open>
  Claim C10 (the code does otherwise). Where a directory was confirmed and
  \<open>fs.readdir\<close> fails, no 500 is sent: the callback calls \<open>respondError\<close> as a free
  variable, which is not defined, so a ReferenceError is thrown before \<open>writeHead\<close> or
  \<open>end\<close> is reached and the request gets no response at all.
\<close>

theorem readdir_failure_sends_nothing:
  "fs_readdir sample_env ''/srv/www/locked/'' = Inl ''EACCES: permission denied''
   \<and> handle sample_server sample_env (get ''/locked/'' [])
     = Inl (ReferenceError ''respondError is not defined'')"
proof
  show f: "fs_readdir sample_env ''/srv/www/locked/'' = Inl ''EACCES: permission denied''"
    by (simp add: sample_env_sel sample_readdir_def)
  show "handle sample_server sample_env (get ''/locked/'' [])
     = Inl (ReferenceError ''respondError is not defined'')"
    by (simp add: handle_def routeHandler_def sample_resolve sample_stat sample_kinds get_sel
      sample_pathnames hasTrailingSlash_simps respondDirectory_def sample_index sample_exists f)
qed


section \<open>Further properties\<close>

subsection \<open>Paths that begin with a slash stay under the root\<close>

lemma split_slash_nonempty: "split_slash s \<noteq> []"
  by (induction s) (auto split: list.splits)

lemma split_slash_append:
  "split_slash (a @ CHR ''/'' # b) = split_slash a @ split_slash b"
proof (induction a)
  case Nil
  then show ?case by simp
next
  case (Cons c a)
  obtain s ss where s: "split_slash a = s # ss"
    using split_slash_nonempty [of a] by (cases "split_slash a") auto
  with Cons show ?case by simp
qed

lemma split_slash_plain: "CHR ''/'' \<notin> set s \<Longrightarrow> split_slash s = [s]"
  by (induction s) auto

lemma split_slash_no_slash: "seg \<in> set (split_slash s) \<Longrightarrow> CHR ''/'' \<notin> set seg"
proof (induction s arbitrary: seg)
  case Nil
  then show ?case by simp
next
  case (Cons c s)
  obtain t ts where t: "split_slash s = t # ts"
    using split_slash_nonempty [of s] by (cases "split_slash s") auto
  show ?case
  proof (cases "c = CHR ''/''")
    case True
    with Cons show ?thesis by auto
  next
    case False
    with Cons.prems t have "seg = c # t \<or> seg \<in> set ts" by simp
    then show ?thesis
      using Cons.IH t False by auto
  qed
qed

lemma slashed_append: "slashed (xs @ ys) = slashed xs @ slashed ys"
  by (induction xs) auto

lemma join_slash_slashed: "CHR ''/'' # join_slash (s # ss) = slashed (s # ss)"
  by (induction ss arbitrary: s) auto

lemma split_slashed_tail:
  assumes "list_all clean_segment segs"
  shows "split_slash (slashed segs @ CHR ''/'' # t) = [] # segs @ split_slash t"
  using assms
proof (induction segs)
  case Nil
  then show ?case by simp
next
  case (Cons s segs)
  then have ns: "CHR ''/'' \<notin> set s" by (simp add: clean_segment_def)
  have "split_slash (slashed (s # segs) @ CHR ''/'' # t)
      = [] # split_slash (s @ slashed segs @ CHR ''/'' # t)"
    by simp
  also have "split_slash (s @ slashed segs @ CHR ''/'' # t) = s # segs @ split_slash t"
  proof (cases segs)
    case Nil
    then show ?thesis
      using split_slash_append [of s t] ns by (simp add: split_slash_plain)
  next
    case (Cons s' segs')
    have "split_slash (s @ slashed segs @ CHR ''/'' # t)
        = split_slash s @ split_slash (s' @ slashed segs' @ CHR ''/'' # t)"
      using split_slash_append [of s "s' @ slashed segs' @ CHR ''/'' # t"] Cons by simp
    moreover have "split_slash (slashed segs @ CHR ''/'' # t) = [] # segs @ split_slash t"
      using Cons.IH Cons.prems by simp
    then have "split_slash (s' @ slashed segs' @ CHR ''/'' # t) = segs @ split_slash t"
      using Cons by simp
    ultimately show ?thesis
      using ns by (simp add: split_slash_plain)
  qed
  finally show ?case by simp
qed

lemma split_slashed_end:
  assumes "list_all clean_segment segs" and "segs \<noteq> []"
  shows "split_slash (slashed segs) = [] # segs"
  using assms
proof (induction segs)
  case Nil
  then show ?case by simp
next
  case (Cons s segs)
  then have ns: "CHR ''/'' \<notin> set s" by (simp add: clean_segment_def)
  show ?case
  proof (cases segs)
    case Nil
    then show ?thesis using ns by (simp add: split_slash_plain)
  next
    case (Cons s' segs')
    have "split_slash (s @ slashed segs) = split_slash s @ split_slash (s' @ slashed segs')"
      using split_slash_append [of s "s' @ slashed segs'"] Cons by simp
    moreover have "split_slash (slashed segs) = [] # segs"
      using Cons.IH Cons.prems Cons by simp
    then have "split_slash (s' @ slashed segs') = segs"
      using Cons by simp
    ultimately show ?thesis
      using ns by (simp add: split_slash_plain)
  qed
qed

lemma normalizeString_append:
  "normalizeString allow res (xs @ ys) = normalizeString allow (normalizeString allow res xs) ys"
  by (induction xs arbitrary: res) auto

lemma normalizeString_clean:
  "list_all (\<lambda>s. s = [] \<or> clean_segment s) segs \<Longrightarrow>
   normalizeString allow res segs = res @ filter (\<lambda>s. s \<noteq> []) segs"
  by (induction segs arbitrary: res) (auto simp: clean_segment_def)

lemma normalizeString_rooted:
  assumes "list_all clean_segment res" and "\<forall>seg \<in> set segs. CHR ''/'' \<notin> set seg"
  shows "list_all clean_segment (normalizeString False res segs)"
  using assms
proof (induction segs arbitrary: res)
  case Nil
  then show ?case by simp
next
  case (Cons seg segs)
  have rest: "\<forall>seg \<in> set segs. CHR ''/'' \<notin> set seg"
    using Cons.prems(2) by simp
  have b: "list_all clean_segment (butlast res)"
    using Cons.prems(1) by (simp add: list_all_iff) (meson in_set_butlastD)
  consider (skip) "seg = [] \<or> seg = ''.''" | (up) "seg = ''..''"
    | (name) "seg \<noteq> []" "seg \<noteq> ''.''" "seg \<noteq> ''..''"
    by blast
  then show ?case
  proof cases
    case skip
    then show ?thesis
      using Cons.IH [OF Cons.prems(1) rest] by auto
  next
    case up
    then show ?thesis
      using Cons.IH [OF Cons.prems(1) rest] Cons.IH [OF b rest] by simp
  next
    case name
    then have "clean_segment seg"
      using Cons.prems(2) by (simp add: clean_segment_def)
    then have "list_all clean_segment (res @ [seg])"
      using Cons.prems(1) by simp
    then show ?thesis
      using Cons.IH [OF _ rest, of "res @ [seg]"] name by simp
  qed
qed

lemma join_slashed: "segs \<noteq> [] \<Longrightarrow> CHR ''/'' # join_slash segs = slashed segs"
  by (cases segs) (simp_all add: join_slash_slashed)

lemma join_slash_empty: "list_all clean_segment segs \<Longrightarrow> join_slash segs = [] \<longleftrightarrow> segs = []"
proof (cases segs)
  case Nil
  then show ?thesis by simp
next
  case (Cons s ss)
  assume "list_all clean_segment segs"
  with Cons have "s \<noteq> []" by (simp add: clean_segment_def)
  with Cons show ?thesis by (cases ss) auto
qed

text \<open>\<open>path.normalize\<close> of a path that begins with a slash: the clean segments that
  are left, each behind a slash, and the trailing slash if there was one.\<close>

lemma path_normalize_absolute:
  assumes "u \<noteq> []" and "hd u = CHR ''/''"
  shows "\<exists>segs. list_all clean_segment segs
           \<and> path_normalize u =
               (if segs = [] then ''/''
                else slashed segs @ (if last u = CHR ''/'' then ''/'' else []))"
proof -
  let ?segs = "normalizeString False [] (split_slash u)"
  have c: "list_all clean_segment ?segs"
    by (rule normalizeString_rooted) (auto dest: split_slash_no_slash)
  have "path_normalize u =
               (if ?segs = [] then ''/''
                else slashed ?segs @ (if last u = CHR ''/'' then ''/'' else []))"
    using assms join_slash_empty [OF c]
    by (simp add: path_normalize_def Let_def join_slashed [symmetric])
  with c show ?thesis by blast
qed

lemma slashed_nonempty: "segs \<noteq> [] \<Longrightarrow> slashed segs \<noteq> []"
  by (cases segs) auto

lemma slashed_hd: "segs \<noteq> [] \<Longrightarrow> hd (slashed segs) = CHR ''/''"
  by (cases segs) auto

text \<open>Joining clean segments under a clean root only appends them.\<close>

lemma path_join_clean:
  assumes "list_all clean_segment rs" and "rs \<noteq> []" and "list_all clean_segment segs"
    and that: "t = [] \<or> t = ''/''"
  shows "path_join (slashed rs) (if segs = [] then ''/'' else slashed segs @ t)
           = slashed rs @ (if segs = [] then ''/'' else slashed segs @ t)"
proof -
  have r0: "slashed rs \<noteq> []" "hd (slashed rs) = CHR ''/''"
    using assms(2) by (simp_all add: slashed_nonempty slashed_hd)
  have rsplit: "\<And>x. split_slash (slashed rs @ CHR ''/'' # x) = [] # rs @ split_slash x"
    by (rule split_slashed_tail [OF assms(1)])
  have keep: "\<And>xs. list_all (\<lambda>s. s = [] \<or> clean_segment s) xs \<Longrightarrow>
      normalizeString False [] ([] # rs @ xs) = rs @ filter (\<lambda>s. s \<noteq> []) xs"
  proof -
    fix xs :: "string list"
    assume x: "list_all (\<lambda>s. s = [] \<or> clean_segment s) xs"
    have "list_all (\<lambda>s. s = [] \<or> clean_segment s) ([] # rs @ xs)"
      using assms(1) x by (auto simp: list_all_iff)
    then have "normalizeString False [] ([] # rs @ xs) = filter (\<lambda>s. s \<noteq> []) ([] # rs @ xs)"
      using normalizeString_clean [of "[] # rs @ xs" False "[]"] by simp
    moreover have "filter (\<lambda>s. s \<noteq> []) rs = rs"
      using assms(1) by (auto simp: list_all_iff clean_segment_def intro: filter_True)
    ultimately show "normalizeString False [] ([] # rs @ xs) = rs @ filter (\<lambda>s. s \<noteq> []) xs"
      by simp
  qed
  show ?thesis
  proof (cases "segs = []")
    case True
    have "split_slash (slashed rs @ ''//'') = [] # rs @ [[], []]"
      using rsplit [of "''/''"] by simp
    moreover have "normalizeString False [] ([] # rs @ [[], []]) = rs"
      using keep [of "[[], []]"] by simp
    ultimately have "path_normalize (slashed rs @ ''//'') = slashed rs @ ''/''"
      using r0 assms(2) join_slash_empty [OF assms(1)]
      by (simp add: path_normalize_def Let_def join_slashed [symmetric])
    then show ?thesis
      using True r0 by (simp add: path_join_def)
  next
    case False
    have cs: "list_all (\<lambda>s. s = [] \<or> clean_segment s) segs"
      using assms(3) by (auto simp: list_all_iff)
    have all: "list_all clean_segment (rs @ segs)"
      using assms by simp
    have ne: "join_slash (rs @ segs) \<noteq> []"
      using join_slash_empty [OF all] assms(2) by simp
    have j: "CHR ''/'' # join_slash (rs @ segs) = slashed rs @ slashed segs"
      using assms(2) by (simp add: join_slashed slashed_append)
    show ?thesis
    proof (cases "t = []")
      case True
      have "split_slash (slashed rs @ CHR ''/'' # slashed segs) = [] # rs @ [] # segs"
        using rsplit [of "slashed segs"] split_slashed_end [OF assms(3) False] by simp
      moreover have "normalizeString False [] ([] # rs @ [] # segs) = rs @ segs"
      proof -
        have "filter (\<lambda>s. s \<noteq> []) segs = segs"
          using assms(3) by (auto simp: list_all_iff clean_segment_def intro: filter_True)
        then show ?thesis
          using keep [of "[] # segs"] cs by simp
      qed
      moreover have "last (slashed rs @ CHR ''/'' # slashed segs) \<noteq> CHR ''/''"
      proof -
        have "last (slashed segs) = last (last segs)"
          using False assms(3)
        proof (induction segs)
          case Nil
          then show ?case by simp
        next
          case (Cons s ss)
          then have "s \<noteq> []" by (simp add: clean_segment_def)
          then show ?case
            using Cons by (cases ss) (auto simp: slashed_nonempty)
        qed
        moreover have "clean_segment (last segs)"
          using False assms(3) by (simp add: list_all_iff)
        then have "last (last segs) \<noteq> CHR ''/''"
          by (metis clean_segment_def last_in_set)
        ultimately show ?thesis
          using False by (simp add: slashed_nonempty)
      qed
      ultimately have "path_normalize (slashed rs @ CHR ''/'' # slashed segs) = slashed rs @ slashed segs"
        using r0 ne j by (simp add: path_normalize_def Let_def)
      then show ?thesis
        using True False r0 by (simp add: path_join_def slashed_nonempty)
    next
      case nt: False
      with that have t: "t = ''/''" by simp
      have "split_slash (slashed rs @ CHR ''/'' # slashed segs @ ''/'') = [] # rs @ [] # segs @ [[]]"
        using rsplit [of "slashed segs @ ''/''"] split_slashed_tail [OF assms(3), of "[]"] by simp
      moreover have "normalizeString False [] ([] # rs @ [] # segs @ [[]]) = rs @ segs"
      proof -
        have "filter (\<lambda>s. s \<noteq> []) segs = segs"
          using assms(3) by (auto simp: list_all_iff clean_segment_def intro: filter_True)
        then show ?thesis
          using keep [of "[] # segs @ [[]]"] cs by simp
      qed
      ultimately have "path_normalize (slashed rs @ CHR ''/'' # slashed segs @ ''/'')
          = slashed rs @ slashed segs @ ''/''"
        using r0 ne j by (simp add: path_normalize_def Let_def)
      then show ?thesis
        using t False r0 by (simp add: path_join_def slashed_nonempty)
    qed
  qed
qed

text \<open>
  For a root that is an absolute path of clean segments and a request URL that begins
  with a slash, the resolved path is the root followed by clean segments, each behind
  a slash (and a trailing slash where the URL has one): no \<open>..\<close> of such a URL leads
  out of the root.
\<close>

theorem resolve_origin_form_under_root:
  assumes "root this = slashed rs" and "rs \<noteq> []" and "list_all clean_segment rs"
    and "u \<noteq> []" and "hd u = CHR ''/''"
  shows "\<exists>segs. list_all clean_segment segs
           \<and> resolve this u =
               root this @ (if segs = [] then ''/''
                            else slashed segs @ (if last u = CHR ''/'' then ''/'' else []))"
proof -
  obtain segs where segs: "list_all clean_segment segs"
    and n: "path_normalize u =
               (if segs = [] then ''/''
                else slashed segs @ (if last u = CHR ''/'' then ''/'' else []))"
    using path_normalize_absolute [OF assms(4,5)] by blast
  have "(if last u = CHR ''/'' then ''/'' else []) = [] \<or> (if last u = CHR ''/'' then ''/'' else []) = ''/''"
    by simp
  then have "path_join (slashed rs) (path_normalize u) = slashed rs @ path_normalize u"
    unfolding n by (rule path_join_clean [OF assms(3) assms(2) segs])
  then have "resolve this u = root this @ path_normalize u"
    by (simp add: resolve_def assms(1))
  then have "resolve this u = root this @ (if segs = [] then ''/''
                            else slashed segs @ (if last u = CHR ''/'' then ''/'' else []))"
    by (simp only: n)
  with segs show ?thesis
    by (intro exI [of _ segs] conjI)
qed

theorem resolve_origin_form_under_root_witness:
  "root sample_server = slashed [''srv'', ''www'']
   \<and> list_all clean_segment [''srv'', ''www'']
   \<and> (\<exists>segs. list_all clean_segment segs
         \<and> resolve sample_server ''/../../etc/passwd'' =
             root sample_server @ (if segs = [] then ''/''
               else slashed segs @ (if last ''/../../etc/passwd'' = CHR ''/'' then ''/'' else [])))
   \<and> resolve sample_server ''/../../etc/passwd'' = ''/srv/www/etc/passwd''"
proof -
  have r: "root sample_server = slashed [''srv'', ''www'']"
    by (simp add: sample_server_def constructor_def)
  have c: "list_all clean_segment [''srv'', ''www'']"
    by (simp add: clean_segment_def)
  have e: "\<exists>segs. list_all clean_segment segs
         \<and> resolve sample_server ''/../../etc/passwd'' =
             root sample_server @ (if segs = [] then ''/''
               else slashed segs @ (if last ''/../../etc/passwd'' = CHR ''/'' then ''/'' else []))"
    by (rule resolve_origin_form_under_root [OF r _ c]) simp_all
  have v: "resolve sample_server ''/../../etc/passwd'' = ''/srv/www/etc/passwd''"
    by (simp add: resolve_def sample_server_def constructor_def path_join_def path_normalize_def)
  show ?thesis
    by (intro conjI r c e v)
qed

subsection \<open>Ranges inside the file\<close>

text \<open>
  For offsets \<open>a \<le> b < S\<close> written in decimal, with \<open>S\<close> at most \<open>2^53\<close>,
  \<open>Range: bytes=a-b\<close> is answered 206 with \<open>Content-Range: bytes a-b/S\<close> and the
  read stream from \<open>a\<close> to \<open>b\<close>, which carries exactly those bytes of a file of
  \<open>S\<close> bytes.
\<close>

theorem valid_range_served:
  assumes "a \<le> b" and "b < S" and "int S \<le> 2 ^ 53"
  shows "rangeHandler e pathName (''bytes='' @ dec_digits a @ ''-'' @ dec_digits b) S res =
           Inr (Some (ReadStream pathName (Some (a, Some b))),
                res\<lparr>statusCode := 206,
                    res_headers := (res_headers res)(''content-range'' \<mapsto>
                      ''bytes '' @ dec_digits a @ ''-'' @ dec_digits b @ ''/'' @ dec_digits S)\<rparr>)
         \<and> (length (fs_bytes e pathName) = S \<longrightarrow>
              carries_span (fs_bytes e pathName) a b
                (file_bytes (fs_bytes e) (ReadStream pathName (Some (a, Some b)))))"
proof -
  have small: "int a \<le> 2 ^ 53" "int b \<le> 2 ^ 53"
    using assms by simp_all
  have "match_range_at (''bytes='' @ dec_digits a @ ''-'' @ dec_digits b)
          = Some (dec_digits a, dec_digits b)"
    using match_range_at_open [of "dec_digits a" "dec_digits b"] dec_digits_are_digits
    by (simp add: takeWhile_all)
  then have "match_range (''bytes='' @ dec_digits a @ ''-'' @ dec_digits b)
          = Some (dec_digits a, dec_digits b)"
    by simp
  then have "getRange (''bytes='' @ dec_digits a @ ''-'' @ dec_digits b) S
          = Inr \<lparr>range_start = Num (int a), range_end = Num (int b)\<rparr>"
    using parseInt_decimal [OF small(1), of 0] parseInt_decimal [OF small(2), of 0]
    by (simp add: getRange_def)
  then have "rangeHandler e pathName (''bytes='' @ dec_digits a @ ''-'' @ dec_digits b) S res =
           Inr (Some (ReadStream pathName (Some (a, Some b))),
                res\<lparr>statusCode := 206,
                    res_headers := (res_headers res)(''content-range'' \<mapsto>
                      ''bytes '' @ dec_digits a @ ''-'' @ dec_digits b @ ''/'' @ dec_digits S)\<rparr>)"
    using assms by (rule rangeHandler_inside)
  then show ?thesis
    using assms(1,2) span_inside [of a b "fs_bytes e" pathName] by simp
qed

theorem valid_range_served_witness:
  "rangeHandler sample_env ''/srv/www/a.png'' ''bytes=1-2'' 3 new_response =
     Inr (Some (ReadStream ''/srv/www/a.png'' (Some (1, Some 2))),
          \<lparr>statusCode = 206, res_headers = [''content-range'' \<mapsto> ''bytes 1-2/3''], res_body = None\<rparr>)
   \<and> carries_span ''abc'' 1 2 ''bc''"
proof -
  have n: "dec_digits 3 = ''3''" "dec_digits 2 = ''2''" "dec_digits (Suc 0) = ''1''"
    by (simp_all add: dec_digits.simps digit_char_def)
  show ?thesis
    using valid_range_served [of 1 2 3 sample_env "''/srv/www/a.png''" new_response]
    by (simp add: n new_response_def sample_content)
qed



end
